theory Spec2Isabelle
  imports Main "HOL-Library.Word" "HOL-Library.Multiset"
begin

section \<open>Close recommendations of the frdrpc package\<close>

text \<open>
  The development embeds \<^verbatim>\<open>frdrpc/close_recommendations.go\<close>: the request parsers
  \<^verbatim>\<open>parseRecommendationRequest\<close> and \<^verbatim>\<open>parseOutlierRequest\<close>, and \<^verbatim>\<open>rpcResponse\<close>,
  which turns a report of the recommendation engine into the response message. The
  message types come from the protobuf declarations that accompany the Go file. Package
  \<^verbatim>\<open>recommend\<close> is not among the sources; what the Go file uses of it is declared below,
  each declaration saying where it comes from.
\<close>

subsection \<open>Floating-point numbers as bit patterns\<close>

text \<open>
  Go's \<^verbatim>\<open>float32\<close> and \<^verbatim>\<open>float64\<close> are IEEE 754 binary32 and binary64. A value
  is its bit pattern: one sign bit, 8 (11) bits of biased exponent and 23 (52) bits of
  fraction. The fields are read off the unsigned number the pattern denotes.
\<close>

type_synonym float32 = "32 word"
type_synonym float64 = "64 word"

definition f32_sign :: "float32 \<Rightarrow> bool" where
  "f32_sign x = (2 ^ 31 \<le> unat x)"

definition f32_exp :: "float32 \<Rightarrow> nat" where
  "f32_exp x = (unat x div 2 ^ 23) mod 256"

definition f32_frac :: "float32 \<Rightarrow> nat" where
  "f32_frac x = unat x mod 2 ^ 23"

definition f32_isNaN :: "float32 \<Rightarrow> bool" where
  "f32_isNaN x = (f32_exp x = 255 \<and> f32_frac x \<noteq> 0)"

text \<open>
  Every finite binary32 number is an integer multiple of \<open>2\<^sup>-\<^sup>1\<^sup>4\<^sup>9\<close>; \<open>f32_ord\<close> is that
  integer. An infinity is read like a normal number and so lies beyond every finite value
  (\<open>\<plusminus> 2\<^sup>2\<^sup>7\<^sup>7\<close>); both zeros are 0. Comparing these integers is the IEEE comparison of two
  numbers that are not NaN.
\<close>

definition f32_mag :: "float32 \<Rightarrow> int" where
  "f32_mag x =
     (if f32_exp x = 0 then int (f32_frac x)
      else int ((2 ^ 23 + f32_frac x) * 2 ^ (f32_exp x - 1)))"

definition f32_ord :: "float32 \<Rightarrow> int" where
  "f32_ord x = (if f32_sign x then - f32_mag x else f32_mag x)"

text \<open>Go's \<^verbatim>\<open><\<close> and \<^verbatim>\<open>!=\<close> on \<^verbatim>\<open>float32\<close>: a NaN is less than nothing and differs
  from everything.\<close>

definition f32_less :: "float32 \<Rightarrow> float32 \<Rightarrow> bool" where
  "f32_less a b = (\<not> f32_isNaN a \<and> \<not> f32_isNaN b \<and> f32_ord a < f32_ord b)"

definition f32_neq :: "float32 \<Rightarrow> float32 \<Rightarrow> bool" where
  "f32_neq a b = (f32_isNaN a \<or> f32_isNaN b \<or> f32_ord a \<noteq> f32_ord b)"

definition f64_sign :: "float64 \<Rightarrow> bool" where
  "f64_sign x = (2 ^ 63 \<le> unat x)"

definition f64_exp :: "float64 \<Rightarrow> nat" where
  "f64_exp x = (unat x div 2 ^ 52) mod 2048"

definition f64_frac :: "float64 \<Rightarrow> nat" where
  "f64_frac x = unat x mod 2 ^ 52"

definition f64_isNaN :: "float64 \<Rightarrow> bool" where
  "f64_isNaN x = (f64_exp x = 2047 \<and> f64_frac x \<noteq> 0)"

text \<open>The same reading of binary64, in multiples of \<open>2\<^sup>-\<^sup>1\<^sup>0\<^sup>7\<^sup>4\<close>.\<close>

definition f64_mag :: "float64 \<Rightarrow> int" where
  "f64_mag x =
     (if f64_exp x = 0 then int (f64_frac x)
      else int ((2 ^ 52 + f64_frac x) * 2 ^ (f64_exp x - 1)))"

definition f64_ord :: "float64 \<Rightarrow> int" where
  "f64_ord x = (if f64_sign x then - f64_mag x else f64_mag x)"

definition f64_less :: "float64 \<Rightarrow> float64 \<Rightarrow> bool" where
  "f64_less a b = (\<not> f64_isNaN a \<and> \<not> f64_isNaN b \<and> f64_ord a < f64_ord b)"

text \<open>The number of binary digits of a natural number.\<close>

fun bitlen_nat :: "nat \<Rightarrow> nat" where
  "bitlen_nat n = (if n = 0 then 0 else Suc (bitlen_nat (n div 2)))"

declare bitlen_nat.simps [simp del]

text \<open>
  The conversion \<^verbatim>\<open>float64(x)\<close> of a \<^verbatim>\<open>float32\<close>. It is exact: infinities and zeros
  keep their sign, a normal number keeps its fraction under the rebiased exponent
  (\<open>e - 127 + 1023\<close>), and a subnormal \<open>f \<sqdot> 2\<^sup>-\<^sup>1\<^sup>4\<^sup>9\<close> with \<open>b\<close> binary digits becomes the
  normal number with exponent field \<open>873 + b\<close>. A NaN stays a NaN (quiet, with its payload).
  \<open>e'\<close> and \<open>f'\<close> are the exponent field and the fraction of the result.
\<close>

definition float64_of_float32 :: "float32 \<Rightarrow> float64" where
  "float64_of_float32 x =
     (let s = (if f32_sign x then 2 ^ 63 else 0 :: nat);
          e = f32_exp x;
          f = f32_frac x;
          (e', f') =
            (if e = 255 then (2047, if f = 0 then 0 else 2 ^ 51 + (f mod 2 ^ 22) * 2 ^ 29)
             else if e = 0 then
               (if f = 0 then (0, 0)
                else (873 + bitlen_nat f, f * 2 ^ (53 - bitlen_nat f) - 2 ^ 52))
             else (e + 896, f * 2 ^ 29))
      in of_nat (s + e' * 2 ^ 52 + f'))"

text \<open>
  The conversion \<^verbatim>\<open>float32(x)\<close> of a \<^verbatim>\<open>float64\<close>, which rounds to the nearest
  binary32 number, ties to the even one. With \<open>m\<close> the significand of \<open>x\<close> as an integer,
  \<open>k\<close> is the number of its low bits that binary32 cannot keep (29 for a result in the
  normal range, more where the result is subnormal; the subtraction of natural numbers
  stops at 0), \<open>q\<close> the kept bits and \<open>r\<close> the dropped ones. Adding the rounded
  significand to the exponent field carries into the exponent where rounding reaches the
  next power of two, and everything from the pattern of infinity upwards is infinity, the
  result of rounding a number beyond the binary32 range. A NaN becomes a quiet NaN of the
  same sign.
\<close>

definition float32_of_float64 :: "float64 \<Rightarrow> float32" where
  "float32_of_float64 x =
     (let s = (if f64_sign x then 2 ^ 31 else 0 :: nat);
          e = f64_exp x;
          f = f64_frac x
      in if e = 2047 \<and> f \<noteq> 0 then
           of_nat (s + 255 * 2 ^ 23 + 2 ^ 22 + (f div 2 ^ 29) mod 2 ^ 22)
         else
           let m = (if e = 0 then f else 2 ^ 52 + f);
               k = max 29 (926 - max e 1);
               q = m div 2 ^ k;
               r = m mod 2 ^ k;
               q' = (if 2 ^ (k - 1) < r \<or> (r = 2 ^ (k - 1) \<and> odd q) then q + 1 else q);
               bits = (k + max e 1 - 926) * 2 ^ 23 + q'
           in of_nat (s + min bits (255 * 2 ^ 23)))"

subsection \<open>Request messages and the recommendation config\<close>

text \<open>
  The protobuf enum \<^verbatim>\<open>CloseRecommendationRequest.Metric\<close> is a Go \<^verbatim>\<open>int32\<close> with six
  named values; a request can carry any \<^verbatim>\<open>int32\<close>.
\<close>

type_synonym CloseRecommendationRequest_Metric = "32 word"

definition CloseRecommendationRequest_UNKNOWN :: CloseRecommendationRequest_Metric where
  "CloseRecommendationRequest_UNKNOWN = 0"

definition CloseRecommendationRequest_UPTIME :: CloseRecommendationRequest_Metric where
  "CloseRecommendationRequest_UPTIME = 1"

definition CloseRecommendationRequest_REVENUE :: CloseRecommendationRequest_Metric where
  "CloseRecommendationRequest_REVENUE = 2"

definition CloseRecommendationRequest_INCOMING_VOLUME :: CloseRecommendationRequest_Metric where
  "CloseRecommendationRequest_INCOMING_VOLUME = 3"

definition CloseRecommendationRequest_OUTGOING_VOLUME :: CloseRecommendationRequest_Metric where
  "CloseRecommendationRequest_OUTGOING_VOLUME = 4"

definition CloseRecommendationRequest_TOTAL_VOLUME :: CloseRecommendationRequest_Metric where
  "CloseRecommendationRequest_TOTAL_VOLUME = 5"

record CloseRecommendationRequest =
  MinimumMonitored :: "64 word"
  Metric :: CloseRecommendationRequest_Metric

text \<open>A message field of message type is a Go pointer: \<open>None\<close> is the nil pointer of an
  unset \<^verbatim>\<open>rec_request\<close>.\<close>

record OutlierRecommendationsRequest =
  RecRequest :: "CloseRecommendationRequest option"
  OutlierMultiplier :: float32

text \<open>
  Modelled from the spec: the type \<^verbatim>\<open>recommend.Metric\<close> and its five constants are
  declared in package \<^verbatim>\<open>recommend\<close>, which is missing. The spec's data model has the
  metric selector as an enumeration of exactly five variants (uptime, revenue, incoming
  volume, outgoing volume, total volume); the constructors carry the names the Go file
  uses for them.
\<close>

datatype recommend_Metric =
  UptimeMetric | RevenueMetric | IncomingVolume | OutgoingVolume | Volume

text \<open>
  Modelled from the spec: \<^verbatim>\<open>recommend.DefaultOutlierMultiplier\<close> is declared in the
  missing package; the spec gives the default outlier multiplier as 1.5, which as a
  \<^verbatim>\<open>float64\<close> is the pattern below.
\<close>

definition DefaultOutlierMultiplier :: float64 where
  "DefaultOutlierMultiplier = 0x3FF8000000000000"

text \<open>
  \<^verbatim>\<open>recommend.CloseRecommendationConfig\<close>, with the three fields the Go file sets. The
  field \<^verbatim>\<open>ChannelInsights\<close> is a closure over the request context and the server config;
  the model keeps the two captured values. \<^verbatim>\<open>MinimumMonitored\<close> is a
  \<^verbatim>\<open>time.Duration\<close>, an \<^verbatim>\<open>int64\<close> of nanoseconds.
\<close>

record ('ctx, 'cfg) CloseRecommendationConfig =
  cfg_ChannelInsights :: "'ctx \<times> 'cfg"
  cfg_MinimumMonitored :: "64 word"
  cfg_Metric :: recommend_Metric

definition time_Second :: "64 word" where
  "time_Second = 1000000000"

datatype panic = NilPointerDereference

subsection \<open>parseRecommendationRequest and parseOutlierRequest\<close>

text \<open>
  The struct literal leaves \<^verbatim>\<open>Metric\<close> at the zero value of \<^verbatim>\<open>recommend.Metric\<close>. That
  value is fixed by the missing declaration of the type, so it is the parameter
  \<open>zeroMetric\<close>. The switch has no default case. Reading a field of a nil request
  panics.
\<close>

definition parseRecommendationRequest ::
  "recommend_Metric \<Rightarrow> 'ctx \<Rightarrow> 'cfg \<Rightarrow> CloseRecommendationRequest option
     \<Rightarrow> panic + ('ctx, 'cfg) CloseRecommendationConfig" where
  "parseRecommendationRequest zeroMetric ctx cfg req =
     (case req of
        None \<Rightarrow> Inl NilPointerDereference
      | Some r \<Rightarrow>
          let recCfg = \<lparr>cfg_ChannelInsights = (ctx, cfg),
                        cfg_MinimumMonitored = time_Second * MinimumMonitored r,
                        cfg_Metric = zeroMetric\<rparr>
          in Inr (if Metric r = CloseRecommendationRequest_UPTIME
                    then recCfg\<lparr>cfg_Metric := UptimeMetric\<rparr>
                  else if Metric r = CloseRecommendationRequest_REVENUE
                    then recCfg\<lparr>cfg_Metric := RevenueMetric\<rparr>
                  else if Metric r = CloseRecommendationRequest_INCOMING_VOLUME
                    then recCfg\<lparr>cfg_Metric := IncomingVolume\<rparr>
                  else if Metric r = CloseRecommendationRequest_OUTGOING_VOLUME
                    then recCfg\<lparr>cfg_Metric := OutgoingVolume\<rparr>
                  else if Metric r = CloseRecommendationRequest_TOTAL_VOLUME
                    then recCfg\<lparr>cfg_Metric := Volume\<rparr>
                  else recCfg))"

text \<open>The multiplier is chosen first; the call that parses \<^verbatim>\<open>req.RecRequest\<close> follows in
  the return statement.\<close>

definition parseOutlierRequest ::
  "recommend_Metric \<Rightarrow> 'ctx \<Rightarrow> 'cfg \<Rightarrow> OutlierRecommendationsRequest
     \<Rightarrow> panic + (('ctx, 'cfg) CloseRecommendationConfig \<times> float64)" where
  "parseOutlierRequest zeroMetric ctx cfg req =
     (let multiplier = (if f32_neq (OutlierMultiplier req) 0
                        then float64_of_float32 (OutlierMultiplier req)
                        else DefaultOutlierMultiplier)
      in case parseRecommendationRequest zeroMetric ctx cfg (RecRequest req) of
           Inl e \<Rightarrow> Inl e
         | Inr recCfg \<Rightarrow> Inr (recCfg, multiplier))"

subsection \<open>rpcResponse\<close>

text \<open>
  Modelled from the spec: \<^verbatim>\<open>recommend.Report\<close> and \<^verbatim>\<open>recommend.Recommendation\<close> are
  declared in the missing package. The Go file reads two counts, which it converts from
  \<^verbatim>\<open>int\<close> (64 bits wide on the 64-bit platforms), and a Go map from channel point to a
  recommendation with a \<^verbatim>\<open>float64\<close> metric value and the close flag.
\<close>

record recommend_Recommendation =
  rec_Value :: float64
  rec_RecommendClose :: bool

record recommend_Report =
  rep_TotalChannels :: "64 word"
  rep_ConsideredChannels :: "64 word"
  rep_Recommendations :: "string \<rightharpoonup> recommend_Recommendation"

record Recommendation =
  ChanPoint :: string
  Value :: float32
  RecommendClose :: bool

record CloseRecommendationsResponse =
  TotalChannels :: "32 word"
  ConsideredChannels :: "32 word"
  Recommendations :: "Recommendation list"

text \<open>
  \<^verbatim>\<open>sort.SliceStable\<close> belongs to Go's standard library. It sorts blocks of 20 elements
  by insertion and merges the blocks; on a slice of at most 20 elements it runs exactly
  the insertion sort below: each element in turn moves towards the front for as long as it
  is less than its left neighbour. \<open>insert_back\<close> works on the sorted prefix in reverse,
  so that the left neighbour is the head. On longer slices the library's result is the
  same whenever the comparison is a strict weak order, since the stably sorted arrangement is
  unique.
\<close>

fun insert_back :: "('a \<Rightarrow> 'a \<Rightarrow> bool) \<Rightarrow> 'a \<Rightarrow> 'a list \<Rightarrow> 'a list" where
  "insert_back lt x [] = [x]"
| "insert_back lt x (y # ys) =
     (if lt x y then y # insert_back lt x ys else x # y # ys)"

definition SliceStable :: "('a \<Rightarrow> 'a \<Rightarrow> bool) \<Rightarrow> 'a list \<Rightarrow> 'a list" where
  "SliceStable lt xs = rev (foldl (\<lambda>pre x. insert_back lt x pre) [] xs)"

text \<open>
  Go visits the keys of a map in an order it does not specify, each key once. A run of the
  \<^verbatim>\<open>range\<close> loop is described by the list of keys in the order it visits them.
\<close>

definition range_order :: "('k \<rightharpoonup> 'v) \<Rightarrow> 'k list \<Rightarrow> bool" where
  "range_order m ks = (distinct ks \<and> set ks = dom m)"

text \<open>
  The state of a run of \<^verbatim>\<open>rpcResponse\<close>: the report it was given and the response it
  builds. Each statement of the function is a state transformer.
\<close>

record rpc_state =
  st_report :: recommend_Report
  st_resp :: CloseRecommendationsResponse

definition new_response :: "recommend_Report \<Rightarrow> rpc_state" where
  "new_response report =
     \<lparr>st_report = report,
      st_resp = \<lparr>TotalChannels = ucast (rep_TotalChannels report),
                 ConsideredChannels = ucast (rep_ConsideredChannels report),
                 Recommendations = []\<rparr>\<rparr>"

definition append_recommendation :: "string \<Rightarrow> rpc_state \<Rightarrow> rpc_state" where
  "append_recommendation chanPoint st =
     (case rep_Recommendations (st_report st) chanPoint of
        None \<Rightarrow> st
      | Some rec \<Rightarrow>
          st\<lparr>st_resp := (st_resp st)\<lparr>Recommendations :=
               Recommendations (st_resp st) @
                 [\<lparr>ChanPoint = chanPoint,
                   Value = float32_of_float64 (rec_Value rec),
                   RecommendClose = rec_RecommendClose rec\<rparr>]\<rparr>\<rparr>)"

definition value_less :: "Recommendation \<Rightarrow> Recommendation \<Rightarrow> bool" where
  "value_less a b = f32_less (Value a) (Value b)"

definition sort_recommendations :: "rpc_state \<Rightarrow> rpc_state" where
  "sort_recommendations st =
     st\<lparr>st_resp := (st_resp st)\<lparr>Recommendations :=
          SliceStable value_less (Recommendations (st_resp st))\<rparr>\<rparr>"

text \<open>\<open>rpcResponse_run ks report\<close> is the final state of the run that visits the map's
  keys in the order \<open>ks\<close>; \<open>rpcResponse\<close> is the response it returns.\<close>

definition rpcResponse_run :: "string list \<Rightarrow> recommend_Report \<Rightarrow> rpc_state" where
  "rpcResponse_run ks report =
     sort_recommendations (fold append_recommendation ks (new_response report))"

definition rpcResponse :: "string list \<Rightarrow> recommend_Report \<Rightarrow> CloseRecommendationsResponse" where
  "rpcResponse ks report = st_resp (rpcResponse_run ks report)"

subsection \<open>Notions used in the statements\<close>

text \<open>The list of recommendations the range loop has built when the sort starts.\<close>

definition assembled :: "string list \<Rightarrow> recommend_Report \<Rightarrow> Recommendation list" where
  "assembled ks report =
     Recommendations (st_resp (fold append_recommendation ks (new_response report)))"

text \<open>The response entry the loop body builds for one entry of the report's map.\<close>

definition mk_rec :: "string \<Rightarrow> recommend_Recommendation \<Rightarrow> Recommendation" where
  "mk_rec chanPoint rec =
     \<lparr>ChanPoint = chanPoint,
      Value = float32_of_float64 (rec_Value rec),
      RecommendClose = rec_RecommendClose rec\<rparr>"

text \<open>The five selectors for which the switch has a case.\<close>

definition known_metric :: "CloseRecommendationRequest_Metric \<Rightarrow> bool" where
  "known_metric m =
     (m \<in> {CloseRecommendationRequest_UPTIME, CloseRecommendationRequest_REVENUE,
           CloseRecommendationRequest_INCOMING_VOLUME,
           CloseRecommendationRequest_OUTGOING_VOLUME,
           CloseRecommendationRequest_TOTAL_VOLUME})"

text \<open>The number a response entry is ordered by, where its value is not a NaN.\<close>

definition value_key :: "Recommendation \<Rightarrow> int" where
  "value_key r = f32_ord (Value r)"

text \<open>No metric value of the report is a NaN.\<close>

definition no_NaN_values :: "recommend_Report \<Rightarrow> bool" where
  "no_NaN_values report =
     (\<forall>rec \<in> ran (rep_Recommendations report). \<not> f64_isNaN (rec_Value rec))"

text \<open>No two entries of the report have metric values that are equal once converted to
  \<^verbatim>\<open>float32\<close>.\<close>

definition distinct_values :: "recommend_Report \<Rightarrow> bool" where
  "distinct_values report =
     inj_on (\<lambda>k. f32_ord (float32_of_float64 (rec_Value (the (rep_Recommendations report k)))))
       (dom (rep_Recommendations report))"

text \<open>The exponent field and the fraction of \<open>float64_of_float32 x\<close>, by the kind of \<open>x\<close>.\<close>

definition widened_exp :: "float32 \<Rightarrow> nat" where
  "widened_exp x =
     (if f32_exp x = 255 then 2047
      else if f32_exp x = 0 then (if f32_frac x = 0 then 0 else 873 + bitlen_nat (f32_frac x))
      else f32_exp x + 896)"

definition widened_frac :: "float32 \<Rightarrow> nat" where
  "widened_frac x =
     (if f32_exp x = 255 then (if f32_frac x = 0 then 0 else 2 ^ 51 + (f32_frac x mod 2 ^ 22) * 2 ^ 29)
      else if f32_exp x = 0 then
        (if f32_frac x = 0 then 0 else f32_frac x * 2 ^ (53 - bitlen_nat (f32_frac x)) - 2 ^ 52)
      else f32_frac x * 2 ^ 29)"

subsection \<open>Example reports\<close>

text \<open>
  The bit patterns are those of 1.0 (\<open>0x3FF0000000000000\<close>), of its successor
  \<open>1 + 2\<^sup>-\<^sup>5\<^sup>2\<close>, of 0.0 and of a quiet NaN (\<open>0x7FF8000000000000\<close>).
\<close>

definition small_report :: recommend_Report where
  "small_report =
     \<lparr>rep_TotalChannels = 3, rep_ConsideredChannels = 2,
      rep_Recommendations =
        [''a:0'' \<mapsto> \<lparr>rec_Value = 0x3FF0000000000000, rec_RecommendClose = False\<rparr>,
         ''b:1'' \<mapsto> \<lparr>rec_Value = 0, rec_RecommendClose = True\<rparr>]\<rparr>"

definition equal_report :: recommend_Report where
  "equal_report =
     \<lparr>rep_TotalChannels = 2, rep_ConsideredChannels = 2,
      rep_Recommendations =
        [''a:0'' \<mapsto> \<lparr>rec_Value = 0x3FF0000000000000, rec_RecommendClose = False\<rparr>,
         ''b:1'' \<mapsto> \<lparr>rec_Value = 0x3FF0000000000000, rec_RecommendClose = False\<rparr>]\<rparr>"


definition nan_report :: recommend_Report where
  "nan_report =
     \<lparr>rep_TotalChannels = 3, rep_ConsideredChannels = 3,
      rep_Recommendations =
        [''a:0'' \<mapsto> \<lparr>rec_Value = 0x3FF0000000000000, rec_RecommendClose = False\<rparr>,
         ''b:1'' \<mapsto> \<lparr>rec_Value = 0x7FF8000000000000, rec_RecommendClose = False\<rparr>,
         ''c:2'' \<mapsto> \<lparr>rec_Value = 0, rec_RecommendClose = False\<rparr>]\<rparr>"


section \<open>Facts about the floating-point conversions\<close>

lemma unat_of_nat32: "n < 2 ^ 32 \<Longrightarrow> unat (of_nat n :: 32 word) = n"
  by (simp add: unat_of_nat)

lemma split_fields:
  fixes N :: nat
  assumes "0 < N" "v < M * N"
  shows "((M * N + v) div N) mod M = v div N" "(M * N + v) mod N = v mod N"
    "(v div N) mod M = v div N"
proof -
  have "v div N < M"
    using assms by (simp add: less_mult_imp_div_less)
  then show "((M * N + v) div N) mod M = v div N" "(v div N) mod M = v div N"
    using assms by simp_all
  show "(M * N + v) mod N = v mod N"
    by simp
qed

lemma low_field:
  fixes N :: nat
  assumes "t < N"
  shows "(M * N + t) div N = M" "(M * N + t) mod N = t"
  using assms by simp_all

lemma top_field:
  fixes N :: nat
  assumes "0 < N" "v \<le> M * N" "v div N = M"
  shows "v mod N = 0"
proof -
  have "v = M * N + v mod N"
    using assms(3) div_mult_mod_eq [of v N] by simp
  with assms(2) show ?thesis by simp
qed

lemma f32_fields_of_nat:
  assumes "v < 2 ^ 31"
  shows "f32_exp (of_nat v) = v div 2 ^ 23" "f32_frac (of_nat v) = v mod 2 ^ 23"
    "\<not> f32_sign (of_nat v)"
    "f32_exp (of_nat (2 ^ 31 + v)) = v div 2 ^ 23" "f32_frac (of_nat (2 ^ 31 + v)) = v mod 2 ^ 23"
    "f32_sign (of_nat (2 ^ 31 + v))"
proof -
  have a: "unat (of_nat v :: 32 word) = v"
    by (rule unat_of_nat32) (use assms in simp)
  have b: "unat (of_nat (2 ^ 31 + v) :: 32 word) = 256 * 2 ^ 23 + v"
    using unat_of_nat32 [of "2 ^ 31 + v"] assms by simp
  have v: "v < 256 * 2 ^ 23"
    using assms by simp
  show "f32_exp (of_nat v) = v div 2 ^ 23"
    unfolding f32_exp_def a by (rule split_fields(3) [OF _ v]) simp
  show "f32_frac (of_nat v) = v mod 2 ^ 23"
    unfolding f32_frac_def a by simp
  show "\<not> f32_sign (of_nat v)"
    unfolding f32_sign_def a using assms by simp
  show "f32_exp (of_nat (2 ^ 31 + v)) = v div 2 ^ 23"
    unfolding f32_exp_def b by (rule split_fields(1) [OF _ v]) simp
  show "f32_frac (of_nat (2 ^ 31 + v)) = v mod 2 ^ 23"
    unfolding f32_frac_def b by (rule split_fields(2) [OF _ v]) simp
  show "f32_sign (of_nat (2 ^ 31 + v))"
    unfolding f32_sign_def b by simp
qed

lemma isNaN_float32_of_float64: "f32_isNaN (float32_of_float64 x) = f64_isNaN x"
proof (cases "f64_isNaN x")
  case True
  define t where "t = 2 ^ 22 + (f64_frac x div 2 ^ 29) mod 2 ^ 22"
  define p where "p = 255 * 2 ^ 23 + t"
  have t: "0 < t" "t < 2 ^ 23"
    unfolding t_def by simp_all
  then have p: "p < 2 ^ 31" "p div 2 ^ 23 = 255" "p mod 2 ^ 23 \<noteq> 0"
    unfolding p_def using low_field [of t "2 ^ 23" 255] by simp_all
  have "float32_of_float64 x = of_nat p \<or> float32_of_float64 x = of_nat (2 ^ 31 + p)"
    using True
    by (simp add: float32_of_float64_def f64_isNaN_def Let_def p_def t_def add.assoc)
  then show ?thesis
    using True p f32_fields_of_nat [of p] by (auto simp: f32_isNaN_def)
next
  case False
  define m where "m = (if f64_exp x = 0 then f64_frac x else 2 ^ 52 + f64_frac x)"
  define k where "k = max 29 (926 - max (f64_exp x) 1)"
  define q where "q = m div 2 ^ k"
  define r where "r = m mod 2 ^ k"
  define q' where "q' = (if 2 ^ (k - 1) < r \<or> (r = 2 ^ (k - 1) \<and> odd q) then q + 1 else q)"
  define v where "v = min ((k + max (f64_exp x) 1 - 926) * 2 ^ 23 + q') (255 * 2 ^ 23)"
  have v: "v \<le> 255 * 2 ^ 23"
    unfolding v_def by simp
  then have v31: "v < 2 ^ 31" by simp
  have nn: "\<not> (v div 2 ^ 23 = 255 \<and> v mod 2 ^ 23 \<noteq> 0)"
    using top_field [of "2 ^ 23" v 255] v by auto
  have c: "\<not> (f64_exp x = 2047 \<and> f64_frac x \<noteq> 0)"
    using False by (simp add: f64_isNaN_def)
  have "float32_of_float64 x = of_nat ((if f64_sign x then 2 ^ 31 else 0) + v)"
    unfolding float32_of_float64_def Let_def v_def q'_def r_def q_def k_def m_def
    using c by (simp only: if_False)
  then have "float32_of_float64 x = of_nat v \<or> float32_of_float64 x = of_nat (2 ^ 31 + v)"
    by (cases "f64_sign x") (simp_all only: if_True if_False add_0 simp_thms)
  then show ?thesis
    using False nn f32_fields_of_nat [OF v31] by (auto simp: f32_isNaN_def)
qed

lemma bitlen_nat_bounds: "0 < n \<Longrightarrow> 2 ^ (bitlen_nat n - 1) \<le> n \<and> n < 2 ^ bitlen_nat n"
proof (induction n rule: bitlen_nat.induct)
  case (1 n)
  show ?case
  proof (cases "n div 2 = 0")
    case True
    with "1.prems" have "n = 1" by auto
    then show ?thesis by (simp add: bitlen_nat.simps)
  next
    case False
    with "1.IH" "1.prems" have ih: "2 ^ (bitlen_nat (n div 2) - 1) \<le> n div 2"
        "n div 2 < 2 ^ bitlen_nat (n div 2)"
      by simp_all
    have pos: "0 < bitlen_nat (n div 2)"
      using False by (simp add: bitlen_nat.simps [of "n div 2"])
    have b: "bitlen_nat n = Suc (bitlen_nat (n div 2))"
      using "1.prems" by (simp add: bitlen_nat.simps [of n])
    have "(2 :: nat) ^ (bitlen_nat n - 1) = 2 * 2 ^ (bitlen_nat (n div 2) - 1)"
      using pos b by (cases "bitlen_nat (n div 2)") simp_all
    moreover have "(2 :: nat) ^ bitlen_nat n = 2 * 2 ^ bitlen_nat (n div 2)"
      using b by simp
    moreover define A B where "A = (2 :: nat) ^ (bitlen_nat (n div 2) - 1)"
      and "B = (2 :: nat) ^ bitlen_nat (n div 2)"
    moreover from ih have "A \<le> n div 2" "n div 2 < B"
      by (simp_all add: A_def B_def)
    then have "2 * A \<le> n" "n < 2 * B"
      by arith+
    ultimately show ?thesis
      by simp
  qed
qed

lemma embed_mono:
  fixes c P Q a b :: int
  assumes "0 < c" "0 < P" "P * c \<le> Q" "\<bar>a\<bar> \<le> P" "\<bar>b\<bar> \<le> P"
  shows "((if a = P then Q else if a = - P then - Q else a * c)
           < (if b = P then Q else if b = - P then - Q else b * c)) = (a < b)"
proof -
  have fin: "- Q < n * c \<and> n * c < Q" if "\<bar>n\<bar> \<le> P" "n \<noteq> P" "n \<noteq> - P" for n
  proof -
    from that have "n < P" "- P < n" by auto
    then have "n * c < P * c" "(- P) * c < n * c"
      using assms(1) by (intro mult_strict_right_mono; simp)+
    with assms(3) show ?thesis by auto
  qed
  have Q: "0 < Q"
    using assms(1-3) mult_pos_pos [of P c] by linarith
  show ?thesis
    using fin [OF assms(4)] fin [OF assms(5)] assms Q
    by (auto simp: mult_less_cancel_right_pos)
qed

lemma unat_of_nat64: "n < 2 ^ 64 \<Longrightarrow> unat (of_nat n :: 64 word) = n"
  by (simp add: unat_of_nat)

lemma f64_fields_of_nat:
  assumes "E < 2048" "t < 2 ^ 52" "s = 0 \<or> s = 2 ^ 63"
  shows "f64_exp (of_nat (s + E * 2 ^ 52 + t)) = E"
    and "f64_frac (of_nat (s + E * 2 ^ 52 + t)) = t"
    and "f64_sign (of_nat (s + E * 2 ^ 52 + t)) = (s \<noteq> 0)"
proof -
  define v where "v = E * 2 ^ 52 + t"
  have "E * 2 ^ 52 \<le> 2047 * (2 :: nat) ^ 52"
    using assms(1) by (intro mult_le_mono1) simp
  with assms(2) have v: "v < 2048 * 2 ^ 52"
    by (simp add: v_def)
  have dm: "v div 2 ^ 52 = E" "v mod 2 ^ 52 = t"
    unfolding v_def using low_field [OF assms(2), of E] by simp_all
  have n: "s + E * 2 ^ 52 + t = s + v"
    by (simp add: v_def)
  from assms(3) show "f64_exp (of_nat (s + E * 2 ^ 52 + t)) = E"
  proof
    assume s: "s = 0"
    have "unat (of_nat (s + v) :: 64 word) = v"
      using unat_of_nat64 [of v] v s by simp
    then show ?thesis
      unfolding n f64_exp_def using split_fields(3) [OF _ v] dm by simp
  next
    assume s: "s = 2 ^ 63"
    have "unat (of_nat (s + v) :: 64 word) = 2048 * 2 ^ 52 + v"
      using unat_of_nat64 [of "s + v"] v s by simp
    then show ?thesis
      unfolding n f64_exp_def using split_fields(1) [OF _ v] dm by simp
  qed
  from assms(3) show "f64_frac (of_nat (s + E * 2 ^ 52 + t)) = t"
  proof
    assume s: "s = 0"
    have "unat (of_nat (s + v) :: 64 word) = v"
      using unat_of_nat64 [of v] v s by simp
    then show ?thesis
      unfolding n f64_frac_def using dm by simp
  next
    assume s: "s = 2 ^ 63"
    have "unat (of_nat (s + v) :: 64 word) = 2048 * 2 ^ 52 + v"
      using unat_of_nat64 [of "s + v"] v s by simp
    then show ?thesis
      unfolding n f64_frac_def using split_fields(2) [OF _ v] dm by simp
  qed
  from assms(3) show "f64_sign (of_nat (s + E * 2 ^ 52 + t)) = (s \<noteq> 0)"
  proof
    assume s: "s = 0"
    have "unat (of_nat (s + v) :: 64 word) = v"
      using unat_of_nat64 [of v] v s by simp
    then show ?thesis
      unfolding n f64_sign_def using v s by simp
  next
    assume s: "s = 2 ^ 63"
    have "unat (of_nat (s + v) :: 64 word) = 2048 * 2 ^ 52 + v"
      using unat_of_nat64 [of "s + v"] v s by simp
    then show ?thesis
      unfolding n f64_sign_def using s by simp
  qed
qed

lemma f32_field_bounds: "f32_exp x < 256" "f32_frac x < 2 ^ 23"
  by (simp_all add: f32_exp_def f32_frac_def)

lemma subnormal_bounds:
  assumes "0 < f" "f < 2 ^ 23"
  shows "0 < bitlen_nat f" "bitlen_nat f \<le> 23"
    "2 ^ 52 \<le> f * 2 ^ (53 - bitlen_nat f)" "f * 2 ^ (53 - bitlen_nat f) < 2 ^ 53"
proof -
  let ?b = "bitlen_nat f"
  from bitlen_nat_bounds [OF assms(1)] have lo: "2 ^ (?b - 1) \<le> f" and hi: "f < 2 ^ ?b"
    by simp_all
  show pos: "0 < ?b"
    using assms(1) by (simp add: bitlen_nat.simps [of f])
  from lo assms(2) have "(2 :: nat) ^ (?b - 1) < 2 ^ 23"
    by (rule le_less_trans)
  then have "?b - 1 < 23"
    by (simp only: power_strict_increasing_iff rel_simps)
  then show le: "?b \<le> 23"
    by simp
  have "(2 :: nat) ^ 52 = 2 ^ (?b - 1) * 2 ^ (53 - ?b)"
    using pos le by (simp add: power_add [symmetric])
  also have "\<dots> \<le> f * 2 ^ (53 - ?b)"
    using lo by (rule mult_le_mono1)
  finally show "2 ^ 52 \<le> f * 2 ^ (53 - ?b)" .
  have "f * 2 ^ (53 - ?b) < 2 ^ ?b * 2 ^ (53 - ?b)"
    using hi by (simp add: mult_less_mono1)
  also have "\<dots> = 2 ^ 53"
    using le by (simp add: power_add [symmetric])
  finally show "f * 2 ^ (53 - ?b) < 2 ^ 53" .
qed

lemma widened_bounds: "widened_exp x < 2048" "widened_frac x < 2 ^ 52"
proof -
  show "widened_exp x < 2048"
    using f32_field_bounds [of x] subnormal_bounds(2) [of "f32_frac x"]
    by (auto simp: widened_exp_def)
  have "(f32_frac x mod 2 ^ 22) * 2 ^ 29 < 2 ^ 22 * (2 :: nat) ^ 29"
    by (intro mult_less_mono1) simp_all
  moreover have "f32_frac x * 2 ^ 29 < 2 ^ 23 * (2 :: nat) ^ 29"
    using f32_field_bounds(2) [of x] by (intro mult_less_mono1) simp_all
  moreover have "0 < f32_frac x \<Longrightarrow>
      f32_frac x * 2 ^ (53 - bitlen_nat (f32_frac x)) - 2 ^ 52 < 2 ^ 52"
    using subnormal_bounds(4) [of "f32_frac x"] f32_field_bounds(2) [of x] by simp
  ultimately show "widened_frac x < 2 ^ 52"
    by (auto simp: widened_frac_def)
qed

lemma float64_of_float32_eq:
  "float64_of_float32 x =
     of_nat ((if f32_sign x then 2 ^ 63 else 0) + widened_exp x * 2 ^ 52 + widened_frac x)"
  by (simp add: float64_of_float32_def Let_def widened_exp_def widened_frac_def)

lemma float64_of_float32_fields:
  "f64_exp (float64_of_float32 x) = widened_exp x"
  "f64_frac (float64_of_float32 x) = widened_frac x"
  "f64_sign (float64_of_float32 x) = f32_sign x"
  unfolding float64_of_float32_eq
  using f64_fields_of_nat [OF widened_bounds, of "if f32_sign x then 2 ^ 63 else 0" x]
  by (simp_all split: if_splits)

lemma isNaN_float64_of_float32: "f64_isNaN (float64_of_float32 x) = f32_isNaN x"
  using subnormal_bounds(2) [of "f32_frac x"] f32_field_bounds [of x]
  by (auto simp: f64_isNaN_def f32_isNaN_def float64_of_float32_fields widened_exp_def
      widened_frac_def)

lemma mag_float64_of_float32_finite:
  assumes "f32_exp x \<noteq> 255"
  shows "f64_mag (float64_of_float32 x) = f32_mag x * 2 ^ 925"
proof -
  let ?e = "f32_exp x" and ?f = "f32_frac x"
  consider (zero) "?e = 0" "?f = 0" | (sub) "?e = 0" "0 < ?f" | (norm) "0 < ?e"
    by auto
  then have "(if widened_exp x = 0 then widened_frac x
              else (2 ^ 52 + widened_frac x) * 2 ^ (widened_exp x - 1))
        = (if ?e = 0 then ?f else (2 ^ 23 + ?f) * 2 ^ (?e - 1)) * 2 ^ 925"
  proof cases
    case zero
    then show ?thesis
      by (simp add: widened_exp_def widened_frac_def)
  next
    case sub
    let ?b = "bitlen_nat ?f"
    note b = subnormal_bounds [OF sub(2) f32_field_bounds(2)]
    have E: "widened_exp x = 873 + ?b" and t: "widened_frac x = ?f * 2 ^ (53 - ?b) - 2 ^ 52"
      using sub by (simp_all add: widened_exp_def widened_frac_def)
    have "(53 - ?b) + (872 + ?b) = 925"
      using b(2) by arith
    then have p: "(2 :: nat) ^ (53 - ?b) * 2 ^ (872 + ?b) = 2 ^ 925"
      by (simp only: power_add [symmetric])
    have "(2 ^ 52 + widened_frac x) * 2 ^ (widened_exp x - 1)
        = (?f * 2 ^ (53 - ?b)) * 2 ^ (872 + ?b)"
      unfolding E t using b(3) by simp
    also have "\<dots> = ?f * 2 ^ 925"
      by (simp only: mult.assoc p)
    finally show ?thesis
      using sub E by simp
  next
    case norm
    have E: "widened_exp x = ?e + 896" and t: "widened_frac x = ?f * 2 ^ 29"
      using norm assms by (simp_all add: widened_exp_def widened_frac_def)
    have "29 + (?e + 895) = (?e - 1) + 925"
      using norm by arith
    then have p: "(2 :: nat) ^ 29 * 2 ^ (?e + 895) = 2 ^ (?e - 1) * 2 ^ 925"
      by (simp only: power_add [symmetric])
    have "(2 :: nat) ^ 52 + ?f * 2 ^ 29 = (2 ^ 23 + ?f) * 2 ^ 29"
      by simp
    then have "(2 ^ 52 + widened_frac x) * 2 ^ (widened_exp x - 1)
        = ((2 ^ 23 + ?f) * 2 ^ 29) * 2 ^ (?e + 895)"
      unfolding E t by simp
    also have "\<dots> = (2 ^ 23 + ?f) * 2 ^ (?e - 1) * 2 ^ 925"
      by (simp only: mult.assoc p)
    finally show ?thesis
      using norm E by simp
  qed
  then have "int (if widened_exp x = 0 then widened_frac x
              else (2 ^ 52 + widened_frac x) * 2 ^ (widened_exp x - 1))
        = int ((if ?e = 0 then ?f else (2 ^ 23 + ?f) * 2 ^ (?e - 1)) * 2 ^ 925)"
    by (rule arg_cong)
  then show ?thesis
    unfolding f64_mag_def f32_mag_def float64_of_float32_fields
    by (simp only: if_distrib [of int] of_nat_mult of_nat_power of_nat_numeral)
qed

lemma f32_mag_finite:
  assumes "f32_exp x \<noteq> 255"
  shows "0 \<le> f32_mag x" "f32_mag x < 2 ^ 277"
proof -
  let ?e = "f32_exp x" and ?f = "f32_frac x"
  show "0 \<le> f32_mag x"
    by (simp add: f32_mag_def)
  have e: "?e - 1 \<le> 253"
    using assms f32_field_bounds(1) [of x] by simp
  have "(2 ^ 23 + ?f) * 2 ^ (?e - 1) < 2 ^ 24 * (2 :: nat) ^ (?e - 1)"
    using f32_field_bounds(2) [of x] by (intro mult_less_mono1) simp_all
  also have "\<dots> \<le> 2 ^ 24 * 2 ^ 253"
    using e by (intro mult_le_mono2 power_increasing) simp_all
  also have "\<dots> = 2 ^ 277"
    by (simp only: power_add [symmetric]) simp
  finally have n: "(2 ^ 23 + ?f) * 2 ^ (?e - 1) < (2 :: nat) ^ 277" .
  have "?f < (2 :: nat) ^ 277"
    using f32_field_bounds(2) [of x]
    by (rule less_le_trans) (rule power_increasing, simp_all)
  with n have "(if ?e = 0 then ?f else (2 ^ 23 + ?f) * 2 ^ (?e - 1)) < (2 :: nat) ^ 277"
    by simp
  then have "int (if ?e = 0 then ?f else (2 ^ 23 + ?f) * 2 ^ (?e - 1)) < int (2 ^ 277)"
    by (simp only: of_nat_less_iff)
  then show "f32_mag x < 2 ^ 277"
    unfolding f32_mag_def by (simp only: if_distrib [of int] of_nat_power of_nat_numeral)
qed

lemma f32_mag_infinite:
  assumes "f32_exp x = 255" "f32_frac x = 0"
  shows "f32_mag x = 2 ^ 277" "f64_mag (float64_of_float32 x) = 2 ^ 2098"
proof -
  have "(2 :: nat) ^ 23 * 2 ^ 254 = 2 ^ 277"
    by (simp only: power_add [symmetric]) simp
  then have "int (2 ^ 23 * 2 ^ 254) = int (2 ^ 277)"
    by (rule arg_cong)
  then show "f32_mag x = 2 ^ 277"
    unfolding f32_mag_def using assms by (simp only: of_nat_power of_nat_numeral) simp
  have E: "widened_exp x = 2047" "widened_frac x = 0"
    using assms by (simp_all add: widened_exp_def widened_frac_def)
  have "(2 :: nat) ^ 52 * 2 ^ 2046 = 2 ^ 2098"
    by (simp only: power_add [symmetric]) simp
  then have "int (2 ^ 52 * 2 ^ 2046) = int (2 ^ 2098)"
    by (rule arg_cong)
  then show "f64_mag (float64_of_float32 x) = 2 ^ 2098"
    unfolding f64_mag_def float64_of_float32_fields E
    by (simp only: of_nat_power of_nat_numeral) simp
qed

lemma f64_ord_float64_of_float32:
  assumes "\<not> f32_isNaN x"
  shows "\<bar>f32_ord x\<bar> \<le> 2 ^ 277"
    and "f64_ord (float64_of_float32 x)
       = (if f32_ord x = 2 ^ 277 then 2 ^ 2098
          else if f32_ord x = - (2 ^ 277) then - (2 ^ 2098)
          else f32_ord x * 2 ^ 925)"
proof -
  define P :: int where "P = 2 ^ 277"
  define Q :: int where "Q = 2 ^ 2098"
  define c :: int where "c = 2 ^ 925"
  have P: "0 < P" by (simp add: P_def)
  have r: "\<bar>f32_ord x\<bar> \<le> P \<and> f64_ord (float64_of_float32 x)
       = (if f32_ord x = P then Q else if f32_ord x = - P then - Q else f32_ord x * c)"
  proof (cases "f32_exp x = 255")
    case True
    with assms have "f32_frac x = 0"
      by (simp add: f32_isNaN_def)
    from f32_mag_infinite [OF True this] have "f32_mag x = P" "f64_mag (float64_of_float32 x) = Q"
      by (simp_all only: P_def Q_def)
    then show ?thesis
      using P by (simp add: f32_ord_def f64_ord_def float64_of_float32_fields)
  next
    case False
    from f32_mag_finite [OF False] mag_float64_of_float32_finite [OF False]
    have "0 \<le> f32_mag x" "f32_mag x < P" "f64_mag (float64_of_float32 x) = f32_mag x * c"
      by (simp_all only: P_def c_def)
    then show ?thesis
      by (simp add: f32_ord_def f64_ord_def float64_of_float32_fields)
  qed
  from r show "\<bar>f32_ord x\<bar> \<le> 2 ^ 277"
    by (simp only: P_def)
  from r show "f64_ord (float64_of_float32 x)
       = (if f32_ord x = 2 ^ 277 then 2 ^ 2098
          else if f32_ord x = - (2 ^ 277) then - (2 ^ 2098)
          else f32_ord x * 2 ^ 925)"
    by (simp only: P_def Q_def c_def)
qed

lemma less_float64_of_float32:
  "f64_less (float64_of_float32 a) (float64_of_float32 b) = f32_less a b"
proof (cases "f32_isNaN a \<or> f32_isNaN b")
  case True
  then show ?thesis
    by (auto simp: f64_less_def f32_less_def isNaN_float64_of_float32)
next
  case False
  then have a: "\<not> f32_isNaN a" and b: "\<not> f32_isNaN b"
    by simp_all
  have "(277 :: nat) + 925 \<le> 2098"
    by simp
  then have "(2 :: int) ^ (277 + 925) \<le> 2 ^ 2098"
    by (intro power_increasing) simp_all
  then have pc: "(2 :: int) ^ 277 * 2 ^ 925 \<le> 2 ^ 2098"
    by (simp only: power_add)
  have "(f64_ord (float64_of_float32 a) < f64_ord (float64_of_float32 b))
      = (f32_ord a < f32_ord b)"
    unfolding f64_ord_float64_of_float32(2) [OF a] f64_ord_float64_of_float32(2) [OF b]
    by (rule embed_mono [OF _ _ pc f64_ord_float64_of_float32(1) [OF a]
          f64_ord_float64_of_float32(1) [OF b]]) simp_all
  with a b show ?thesis
    by (simp add: f64_less_def f32_less_def isNaN_float64_of_float32)
qed

text \<open>Converting a \<^verbatim>\<open>float32\<close> to \<^verbatim>\<open>float64\<close> and back gives the number
  started from: the two conversions agree with one another.\<close>

lemma float32_pattern:
  "x = of_nat ((if f32_sign x then 2 ^ 31 else 0) + f32_exp x * 2 ^ 23 + f32_frac x)"
proof -
  let ?n = "unat x"
  have n: "?n < 2 ^ 32"
    using unsigned_less [of x] by simp
  have d: "?n = (?n div 2 ^ 23) * 2 ^ 23 + ?n mod 2 ^ 23"
    by simp
  have "?n div 2 ^ 23 < 512"
    using n by (simp add: less_mult_imp_div_less)
  then have e: "?n div 2 ^ 23 = (if 2 ^ 31 \<le> ?n then 256 else 0) + (?n div 2 ^ 23) mod 256"
    by (auto simp: le_div_geq div_less_iff_less_mult mod_if not_le)
  have "?n = (if f32_sign x then 2 ^ 31 else 0) + f32_exp x * 2 ^ 23 + f32_frac x"
    unfolding f32_sign_def f32_exp_def f32_frac_def
    by (subst d, subst e) (simp add: algebra_simps)
  then have "of_nat ?n = (of_nat ((if f32_sign x then 2 ^ 31 else 0) + f32_exp x * 2 ^ 23
      + f32_frac x) :: 32 word)"
    by (rule arg_cong)
  then show ?thesis
    by simp
qed

lemma float32_of_float64_exact:
  assumes "\<not> (f64_exp y = 2047 \<and> f64_frac y \<noteq> 0)"
    and "(if f64_exp y = 0 then f64_frac y else 2 ^ 52 + f64_frac y) = q * 2 ^ k"
    and "k = max 29 (926 - max (f64_exp y) 1)"
  shows "float32_of_float64 y
     = of_nat ((if f64_sign y then 2 ^ 31 else 0)
               + min ((k + max (f64_exp y) 1 - 926) * 2 ^ 23 + q) (255 * 2 ^ 23))"
proof -
  define m where "m = (if f64_exp y = 0 then f64_frac y else 2 ^ 52 + f64_frac y)"
  have m: "m = q * 2 ^ k"
    using assms(2) by (simp add: m_def)
  have q: "m div 2 ^ k = q" and r: "m mod 2 ^ k = 0"
    unfolding m by simp_all
  have h: "\<not> ((2 :: nat) ^ (k - 1) < 0)" "(0 :: nat) \<noteq> 2 ^ (k - 1)"
    by simp_all
  show ?thesis
    unfolding float32_of_float64_def Let_def assms(3) [symmetric] m_def [symmetric] q r
    using assms(1) h by (simp only: if_False simp_thms)
qed

lemma float32_roundtrip:
  assumes "\<not> f32_isNaN x"
  shows "float32_of_float64 (float64_of_float32 x) = x"
proof -
  let ?y = "float64_of_float32 x"
  let ?e = "f32_exp x" and ?f = "f32_frac x"
  let ?E = "widened_exp x" and ?t = "widened_frac x"
  note y = float64_of_float32_fields [of x]
  have nn: "\<not> (f64_exp ?y = 2047 \<and> f64_frac ?y \<noteq> 0)"
    using assms isNaN_float64_of_float32 [of x] by (simp add: f64_isNaN_def)
  have exact: "float32_of_float64 ?y
      = of_nat ((if f32_sign x then 2 ^ 31 else 0) + (?e * 2 ^ 23 + ?f))"
    if 1: "(if ?E = 0 then ?t else 2 ^ 52 + ?t) = q * 2 ^ k"
      and 2: "k = max 29 (926 - max ?E 1)"
      and 3: "min ((k + max ?E 1 - 926) * 2 ^ 23 + q) (255 * 2 ^ 23) = ?e * 2 ^ 23 + ?f"
    for q k :: nat
    using float32_of_float64_exact [of ?y q k] nn 1 2 3 unfolding y by simp
  consider (inf) "?e = 255" "?f = 0" | (zero) "?e = 0" "?f = 0" | (sub) "?e = 0" "0 < ?f"
    | (norm) "0 < ?e" "?e < 255"
    using assms f32_field_bounds(1) [of x]
    by (cases "?e = 0"; cases "?f = 0"; cases "?e = 255") (auto simp: f32_isNaN_def)
  then have "float32_of_float64 ?y
      = of_nat ((if f32_sign x then 2 ^ 31 else 0) + (?e * 2 ^ 23 + ?f))"
  proof cases
    case inf
    then have E: "?E = 2047" "?t = 0"
      by (simp_all add: widened_exp_def widened_frac_def)
    show ?thesis
    proof (rule exact [of "2 ^ 23" 29])
      show "(if ?E = 0 then ?t else 2 ^ 52 + ?t) = 2 ^ 23 * 2 ^ 29"
        unfolding E by simp
      show "29 = max 29 (926 - max ?E 1)"
        unfolding E by simp
      show "min ((29 + max ?E 1 - 926) * 2 ^ 23 + 2 ^ 23) (255 * 2 ^ 23) = ?e * 2 ^ 23 + ?f"
        unfolding E inf by simp
    qed
  next
    case zero
    then have E: "?E = 0" "?t = 0"
      by (simp_all add: widened_exp_def widened_frac_def)
    show ?thesis
    proof (rule exact [of 0 925])
      show "(if ?E = 0 then ?t else 2 ^ 52 + ?t) = 0 * 2 ^ 925"
        unfolding E by simp
      show "925 = max 29 (926 - max ?E 1)"
        unfolding E by simp
      show "min ((925 + max ?E 1 - 926) * 2 ^ 23 + 0) (255 * 2 ^ 23) = ?e * 2 ^ 23 + ?f"
        unfolding E zero by simp
    qed
  next
    case sub
    let ?b = "bitlen_nat ?f"
    note b = subnormal_bounds [OF sub(2) f32_field_bounds(2)]
    have E: "?E = 873 + ?b" "?t = ?f * 2 ^ (53 - ?b) - 2 ^ 52"
      using sub by (simp_all add: widened_exp_def widened_frac_def)
    show ?thesis
    proof (rule exact [of ?f "53 - ?b"])
      show "(if ?E = 0 then ?t else 2 ^ 52 + ?t) = ?f * 2 ^ (53 - ?b)"
        unfolding E using b(3) by simp
      show "53 - ?b = max 29 (926 - max ?E 1)"
        unfolding E using b(2) by simp
      have "?f \<le> 255 * 2 ^ 23"
        using f32_field_bounds(2) [of x] by simp
      moreover have "53 - ?b + max ?E 1 - 926 = 0"
        unfolding E using b(2) by simp
      ultimately show "min ((53 - ?b + max ?E 1 - 926) * 2 ^ 23 + ?f) (255 * 2 ^ 23)
          = ?e * 2 ^ 23 + ?f"
        using sub(1) by (simp add: min_def)
    qed
  next
    case norm
    have E: "?E = ?e + 896" "?t = ?f * 2 ^ 29"
      using norm by (simp_all add: widened_exp_def widened_frac_def)
    show ?thesis
    proof (rule exact [of "2 ^ 23 + ?f" 29])
      show "(if ?E = 0 then ?t else 2 ^ 52 + ?t) = (2 ^ 23 + ?f) * 2 ^ 29"
        unfolding E by simp
      show "29 = max 29 (926 - max ?E 1)"
        unfolding E using norm by simp
      have "29 + max ?E 1 - 926 = ?e - 1"
        unfolding E by simp
      then have "(29 + max ?E 1 - 926) * 2 ^ 23 + (2 ^ 23 + ?f) = ?e * 2 ^ 23 + ?f"
        using norm(1) by (cases ?e) simp_all
      moreover have "?e * 2 ^ 23 + ?f \<le> 255 * 2 ^ 23"
        using norm(2) f32_field_bounds(2) [of x] by simp
      ultimately show "min ((29 + max ?E 1 - 926) * 2 ^ 23 + (2 ^ 23 + ?f)) (255 * 2 ^ 23)
          = ?e * 2 ^ 23 + ?f"
        by (simp only: min_def if_True)
    qed
  qed
  then show ?thesis
    using float32_pattern [of x] by (simp only: add.assoc)
qed

subsection \<open>Sample conversions\<close>

text \<open>
  The conversion to \<^verbatim>\<open>float32\<close> on numbers whose rounding is known: 0.1 (rounded up),
  \<open>-\<pi>\<close> (rounded away from zero), the ties \<open>1 + 2\<^sup>-\<^sup>2\<^sup>4\<close> (to the even 1.0) and
  \<open>1 + 3 \<sqdot> 2\<^sup>-\<^sup>2\<^sup>4\<close> (to the even \<open>1 + 2\<^sup>-\<^sup>2\<^sup>2\<close>), the largest number that still rounds to the
  largest finite \<^verbatim>\<open>float32\<close> and the tie above it (to infinity), \<open>2\<^sup>-\<^sup>1\<^sup>4\<^sup>9\<close> (the least
  subnormal), the tie \<open>2\<^sup>-\<^sup>1\<^sup>5\<^sup>0\<close> (to zero) and its successor (to the least subnormal), the
  number just below \<open>2\<^sup>-\<^sup>1\<^sup>2\<^sup>6\<close> (to the least normal number), and minus infinity.
\<close>

lemma f64_test_fields:
  "f64_exp 0x3FB999999999999A = 1019" "f64_frac 0x3FB999999999999A = 0x999999999999A"
  "\<not> f64_sign 0x3FB999999999999A"
  "f64_exp 0xC00921FB54442D18 = 1024" "f64_frac 0xC00921FB54442D18 = 0x921FB54442D18"
  "f64_sign 0xC00921FB54442D18"
  "f64_exp 0x3FF0000010000000 = 1023" "f64_frac 0x3FF0000010000000 = 0x10000000"
  "\<not> f64_sign 0x3FF0000010000000"
  "f64_exp 0x3FF0000030000000 = 1023" "f64_frac 0x3FF0000030000000 = 0x30000000"
  "\<not> f64_sign 0x3FF0000030000000"
  "f64_exp 0x47EFFFFFEFFFFFFF = 1150" "f64_frac 0x47EFFFFFEFFFFFFF = 0xFFFFFEFFFFFFF"
  "\<not> f64_sign 0x47EFFFFFEFFFFFFF"
  "f64_exp 0x47EFFFFFF0000000 = 1150" "f64_frac 0x47EFFFFFF0000000 = 0xFFFFFF0000000"
  "\<not> f64_sign 0x47EFFFFFF0000000"
  "f64_exp 0x36A0000000000000 = 874" "f64_frac 0x36A0000000000000 = 0"
  "\<not> f64_sign 0x36A0000000000000"
  "f64_exp 0x3690000000000000 = 873" "f64_frac 0x3690000000000000 = 0"
  "\<not> f64_sign 0x3690000000000000"
  "f64_exp 0x3690000000000001 = 873" "f64_frac 0x3690000000000001 = 1"
  "\<not> f64_sign 0x3690000000000001"
  "f64_exp 0x380FFFFFFFFFFFFF = 896" "f64_frac 0x380FFFFFFFFFFFFF = 0xFFFFFFFFFFFFF"
  "\<not> f64_sign 0x380FFFFFFFFFFFFF"
  "f64_exp 0xFFF0000000000000 = 2047" "f64_frac 0xFFF0000000000000 = 0"
  "f64_sign 0xFFF0000000000000"
  by (simp_all add: f64_exp_def f64_frac_def f64_sign_def)

lemma float32_of_float64_examples:
  "float32_of_float64 0x3FB999999999999A = 0x3DCCCCCD"
  "float32_of_float64 0xC00921FB54442D18 = 0xC0490FDB"
  "float32_of_float64 0x3FF0000010000000 = 0x3F800000"
  "float32_of_float64 0x3FF0000030000000 = 0x3F800002"
  "float32_of_float64 0x47EFFFFFEFFFFFFF = 0x7F7FFFFF"
  "float32_of_float64 0x47EFFFFFF0000000 = 0x7F800000"
  "float32_of_float64 0x36A0000000000000 = 0x00000001"
  "float32_of_float64 0x3690000000000000 = 0"
  "float32_of_float64 0x3690000000000001 = 0x00000001"
  "float32_of_float64 0x380FFFFFFFFFFFFF = 0x00800000"
  "float32_of_float64 0xFFF0000000000000 = 0xFF800000"
  by (simp_all add: float32_of_float64_def f64_test_fields Let_def)

subsection \<open>The numbers of the examples\<close>

lemma f64_consts:
  "f64_exp 0x3FF0000000000000 = 1023" "f64_frac 0x3FF0000000000000 = 0"
  "\<not> f64_sign 0x3FF0000000000000"
  "f64_exp 0x3FF0000000000001 = 1023" "f64_frac 0x3FF0000000000001 = 1"
  "\<not> f64_sign 0x3FF0000000000001"
  "f64_exp 0x7FF8000000000000 = 2047" "f64_frac 0x7FF8000000000000 = 2 ^ 51"
  "\<not> f64_sign 0x7FF8000000000000"
  "f64_exp 0x3FF8000000000000 = 1023" "f64_frac 0x3FF8000000000000 = 2 ^ 51"
  "\<not> f64_sign 0x3FF8000000000000"
  "f64_exp 0xBFF0000000000000 = 1023" "f64_frac 0xBFF0000000000000 = 0"
  "f64_sign 0xBFF0000000000000"
  "f64_exp 0 = 0" "f64_frac 0 = 0" "\<not> f64_sign 0"
  by (simp_all add: f64_exp_def f64_frac_def f64_sign_def)

lemma f32_consts:
  "f32_exp 0x3F800000 = 127" "f32_frac 0x3F800000 = 0" "\<not> f32_sign 0x3F800000"
  "f32_exp 0x7FC00000 = 255" "f32_frac 0x7FC00000 = 2 ^ 22" "\<not> f32_sign 0x7FC00000"
  "f32_exp 0xBF800000 = 127" "f32_frac 0xBF800000 = 0" "f32_sign 0xBF800000"
  "f32_exp 0x40000000 = 128" "f32_frac 0x40000000 = 0" "\<not> f32_sign 0x40000000"
  "f32_exp 0 = 0" "f32_frac 0 = 0" "\<not> f32_sign 0"
  by (simp_all add: f32_exp_def f32_frac_def f32_sign_def)

lemma narrow_consts:
  "float32_of_float64 0x3FF0000000000000 = 0x3F800000"
  "float32_of_float64 0x3FF0000000000001 = 0x3F800000"
  "float32_of_float64 0x7FF8000000000000 = 0x7FC00000"
  "float32_of_float64 0 = 0"
  by (simp_all add: float32_of_float64_def f64_consts Let_def)

lemma widen_consts:
  "float64_of_float32 0xBF800000 = 0xBFF0000000000000"
  "float64_of_float32 0x40000000 = 0x4000000000000000"
  "float64_of_float32 0 = 0"
  by (simp_all add: float64_of_float32_def f32_consts Let_def)

lemma f32_less_consts:
  "f32_less 0 0x3F800000" "\<not> f32_less 0x3F800000 0"
  "\<not> f32_less 0x3F800000 0x3F800000"
  "\<not> f32_less 0x7FC00000 x" "\<not> f32_less x 0x7FC00000"
  "f32_less 0xBF800000 0" "f32_neq 0x40000000 0" "f32_neq 0xBF800000 0"
  by (simp_all add: f32_less_def f32_neq_def f32_isNaN_def f32_ord_def f32_mag_def f32_consts)

lemma f64_less_consts:
  "f64_less 0x3FF0000000000000 0x3FF0000000000001"
  "f64_less 0xBFF0000000000000 0"
  by (simp_all add: f64_less_def f64_isNaN_def f64_ord_def f64_mag_def f64_consts)

section \<open>Properties of the parsers\<close>

lemmas Metric_consts =
  CloseRecommendationRequest_UNKNOWN_def CloseRecommendationRequest_UPTIME_def
  CloseRecommendationRequest_REVENUE_def CloseRecommendationRequest_INCOMING_VOLUME_def
  CloseRecommendationRequest_OUTGOING_VOLUME_def CloseRecommendationRequest_TOTAL_VOLUME_def

lemma parseRecommendationRequest_fields:
  "\<exists>m. parseRecommendationRequest z ctx cfg (Some r)
       = Inr \<lparr>cfg_ChannelInsights = (ctx, cfg),
              cfg_MinimumMonitored = time_Second * MinimumMonitored r,
              cfg_Metric = m\<rparr>"
  by (simp add: parseRecommendationRequest_def Let_def)

lemma sint_times_Second:
  "(sint (time_Second * (x :: 64 word)) = 1000000000 * sint x)
     = (- 9223372036 \<le> sint x \<and> sint x \<le> 9223372036)"
proof -
  have "sint (time_Second * x) = signed_take_bit 63 (1000000000 * sint x)"
    by (simp add: time_Second_def sint_word_ariths)
  moreover have "(signed_take_bit 63 (1000000000 * sint x) = 1000000000 * sint x)
      = (- (2 ^ 63) \<le> 1000000000 * sint x \<and> 1000000000 * sint x < 2 ^ 63)"
    by (rule signed_take_bit_int_eq_self_iff)
  moreover have p: "(2 :: int) ^ 63 = 9223372036854775808"
    by simp
  have "(- (2 ^ 63) \<le> 1000000000 * sint x \<and> 1000000000 * sint x < (2 ^ 63 :: int))
      = (- 9223372036 \<le> sint x \<and> sint x \<le> 9223372036)"
    unfolding p by arith
  ultimately show ?thesis by (simp only:)
qed

text \<open>
  C7. For every request \<^verbatim>\<open>parseRecommendationRequest\<close> returns a config, which carries
  exactly one metric. For each of the five known selectors that metric is the selector's
  namesake: \<^verbatim>\<open>UPTIME\<close> gives the uptime metric, \<^verbatim>\<open>REVENUE\<close> the revenue metric,
  \<^verbatim>\<open>INCOMING_VOLUME\<close> the incoming volume, \<^verbatim>\<open>OUTGOING_VOLUME\<close> the outgoing volume
  and \<^verbatim>\<open>TOTAL_VOLUME\<close> the total volume, whatever the zero value of the metric type
  is.
\<close>

theorem parseRecommendationRequest_metric:
  "(\<exists>!m. \<exists>c. parseRecommendationRequest z ctx cfg (Some r) = Inr c \<and> cfg_Metric c = m)
   \<and> parseRecommendationRequest z ctx cfg
      (Some \<lparr>MinimumMonitored = mm, Metric = CloseRecommendationRequest_UPTIME\<rparr>)
    = Inr \<lparr>cfg_ChannelInsights = (ctx, cfg), cfg_MinimumMonitored = time_Second * mm,
           cfg_Metric = UptimeMetric\<rparr>
   \<and> parseRecommendationRequest z ctx cfg
      (Some \<lparr>MinimumMonitored = mm, Metric = CloseRecommendationRequest_REVENUE\<rparr>)
    = Inr \<lparr>cfg_ChannelInsights = (ctx, cfg), cfg_MinimumMonitored = time_Second * mm,
           cfg_Metric = RevenueMetric\<rparr>
   \<and> parseRecommendationRequest z ctx cfg
      (Some \<lparr>MinimumMonitored = mm, Metric = CloseRecommendationRequest_INCOMING_VOLUME\<rparr>)
    = Inr \<lparr>cfg_ChannelInsights = (ctx, cfg), cfg_MinimumMonitored = time_Second * mm,
           cfg_Metric = IncomingVolume\<rparr>
   \<and> parseRecommendationRequest z ctx cfg
      (Some \<lparr>MinimumMonitored = mm, Metric = CloseRecommendationRequest_OUTGOING_VOLUME\<rparr>)
    = Inr \<lparr>cfg_ChannelInsights = (ctx, cfg), cfg_MinimumMonitored = time_Second * mm,
           cfg_Metric = OutgoingVolume\<rparr>
   \<and> parseRecommendationRequest z ctx cfg
      (Some \<lparr>MinimumMonitored = mm, Metric = CloseRecommendationRequest_TOTAL_VOLUME\<rparr>)
    = Inr \<lparr>cfg_ChannelInsights = (ctx, cfg), cfg_MinimumMonitored = time_Second * mm,
           cfg_Metric = Volume\<rparr>"
proof -
  from parseRecommendationRequest_fields [of z ctx cfg r]
  have "\<exists>!m. \<exists>c. parseRecommendationRequest z ctx cfg (Some r) = Inr c \<and> cfg_Metric c = m"
    by auto
  then show ?thesis
    by (simp add: parseRecommendationRequest_def Metric_consts)
qed

text \<open>
  C3, as the code has it. A request whose selector is none of the five known ones, such as
  \<^verbatim>\<open>UNKNOWN\<close>, is not rejected: \<^verbatim>\<open>parseRecommendationRequest\<close> has no error
  result, and returns the config with the metric left at the zero value of its type.
\<close>

theorem parseRecommendationRequest_unknown_metric:
  "\<not> known_metric (Metric r) \<Longrightarrow>
   parseRecommendationRequest z ctx cfg (Some r)
     = Inr \<lparr>cfg_ChannelInsights = (ctx, cfg),
            cfg_MinimumMonitored = time_Second * MinimumMonitored r,
            cfg_Metric = z\<rparr>"
  by (simp add: parseRecommendationRequest_def known_metric_def)

theorem parseRecommendationRequest_unknown_metric_witness:
  "\<not> known_metric (Metric \<lparr>MinimumMonitored = 60, Metric = CloseRecommendationRequest_UNKNOWN\<rparr>)
   \<and> parseRecommendationRequest RevenueMetric () ()
        (Some \<lparr>MinimumMonitored = 60, Metric = CloseRecommendationRequest_UNKNOWN\<rparr>)
     = Inr \<lparr>cfg_ChannelInsights = ((), ()), cfg_MinimumMonitored = 60000000000,
            cfg_Metric = RevenueMetric\<rparr>"
proof -
  have h: "\<not> known_metric
      (Metric \<lparr>MinimumMonitored = 60, Metric = CloseRecommendationRequest_UNKNOWN\<rparr>)"
    by (simp add: known_metric_def Metric_consts)
  show ?thesis
    using h parseRecommendationRequest_unknown_metric [OF h, of RevenueMetric "()" "()"]
    by (simp add: time_Second_def)
qed

text \<open>The claim C3 fails on the \<^verbatim>\<open>UNKNOWN\<close> selector: the parser answers with a config,
  whose metric is the zero value (taken to be the uptime metric here), not with an error.\<close>

theorem parseRecommendationRequest_unknown_counterexample:
  "parseRecommendationRequest UptimeMetric () ()
      (Some \<lparr>MinimumMonitored = 0, Metric = CloseRecommendationRequest_UNKNOWN\<rparr>)
    = Inr \<lparr>cfg_ChannelInsights = ((), ()), cfg_MinimumMonitored = 0,
           cfg_Metric = UptimeMetric\<rparr>"
  by (simp add: parseRecommendationRequest_def Metric_consts)

text \<open>
  C8, as the code has it. The configured duration is the request's
  \<^verbatim>\<open>minimum_monitored\<close> times \<open>10\<^sup>9\<close> in wrapping 64-bit arithmetic. Read as a signed
  number it is exactly that many seconds if and only if \<^verbatim>\<open>minimum_monitored\<close> lies
  between -9223372036 and 9223372036; negative values in that range do not wrap.
\<close>

theorem parseRecommendationRequest_MinimumMonitored:
  "\<exists>c. parseRecommendationRequest z ctx cfg (Some r) = Inr c
       \<and> cfg_MinimumMonitored c = time_Second * MinimumMonitored r
       \<and> ((sint (cfg_MinimumMonitored c) = 1000000000 * sint (MinimumMonitored r))
            = (- 9223372036 \<le> sint (MinimumMonitored r)
               \<and> sint (MinimumMonitored r) \<le> 9223372036))"
  using parseRecommendationRequest_fields [of z ctx cfg r]
  by (auto simp: sint_times_Second)

text \<open>The claim C8 fails on a negative request: \<^verbatim>\<open>minimum_monitored = -1\<close> gives the
  duration of \<open>-10\<^sup>9\<close> nanoseconds, which is exactly -1 second.\<close>

theorem parseRecommendationRequest_negative_counterexample:
  "sint (- 1 :: 64 word) < 0
   \<and> parseRecommendationRequest UptimeMetric () ()
        (Some \<lparr>MinimumMonitored = - 1, Metric = CloseRecommendationRequest_UPTIME\<rparr>)
     = Inr \<lparr>cfg_ChannelInsights = ((), ()), cfg_MinimumMonitored = - 1000000000,
            cfg_Metric = UptimeMetric\<rparr>
   \<and> sint (- 1000000000 :: 64 word) = 1000000000 * sint (- 1 :: 64 word)"
  by (simp add: parseRecommendationRequest_def Metric_consts time_Second_def)

lemma DefaultOutlierMultiplier_value:
  "\<not> f64_isNaN DefaultOutlierMultiplier" "f64_ord DefaultOutlierMultiplier = 3 * 2 ^ 1073"
  by (simp_all add: DefaultOutlierMultiplier_def f64_isNaN_def f64_ord_def f64_mag_def f64_consts)

text \<open>
  C6, as the code has it. For every outlier request whose \<^verbatim>\<open>rec_request\<close> is set,
  \<^verbatim>\<open>parseOutlierRequest\<close> returns the parsed config together with the multiplier: the
  caller's \<^verbatim>\<open>outlier_multiplier\<close> converted to \<^verbatim>\<open>float64\<close> when that field is not
  zero, and the default 1.5 (three halves, \<open>3 \<sqdot> 2\<^sup>1\<^sup>0\<^sup>7\<^sup>3\<close> units of \<open>2\<^sup>-\<^sup>1\<^sup>0\<^sup>7\<^sup>4\<close>) when it
  is. The conversion is exact: it keeps NaN apart and compares with every other converted
  number as the caller's value does.
\<close>

theorem parseOutlierRequest_multiplier:
  assumes "RecRequest req = Some r"
  shows "\<exists>c. parseRecommendationRequest z ctx cfg (Some r) = Inr c
       \<and> parseOutlierRequest z ctx cfg req
           = Inr (c, if f32_neq (OutlierMultiplier req) 0
                     then float64_of_float32 (OutlierMultiplier req)
                     else DefaultOutlierMultiplier)
       \<and> f64_ord DefaultOutlierMultiplier = 3 * 2 ^ 1073
       \<and> f64_isNaN (float64_of_float32 (OutlierMultiplier req))
           = f32_isNaN (OutlierMultiplier req)
       \<and> (\<forall>y. f64_less (float64_of_float32 (OutlierMultiplier req)) (float64_of_float32 y)
                 = f32_less (OutlierMultiplier req) y
              \<and> f64_less (float64_of_float32 y) (float64_of_float32 (OutlierMultiplier req))
                 = f32_less y (OutlierMultiplier req))"
proof -
  from parseRecommendationRequest_fields [of z ctx cfg r]
  obtain c where c: "parseRecommendationRequest z ctx cfg (Some r) = Inr c"
    by blast
  then have "parseOutlierRequest z ctx cfg req
           = Inr (c, if f32_neq (OutlierMultiplier req) 0
                     then float64_of_float32 (OutlierMultiplier req)
                     else DefaultOutlierMultiplier)"
    using assms by (simp add: parseOutlierRequest_def)
  with c show ?thesis
    by (simp add: DefaultOutlierMultiplier_value isNaN_float64_of_float32
        less_float64_of_float32)
qed

theorem parseOutlierRequest_multiplier_witness:
  "RecRequest \<lparr>RecRequest = Some \<lparr>MinimumMonitored = 60,
                                     Metric = CloseRecommendationRequest_UPTIME\<rparr>,
               OutlierMultiplier = 0x40000000\<rparr>
     = Some \<lparr>MinimumMonitored = 60, Metric = CloseRecommendationRequest_UPTIME\<rparr>
   \<and> parseOutlierRequest RevenueMetric () ()
        \<lparr>RecRequest = Some \<lparr>MinimumMonitored = 60,
                              Metric = CloseRecommendationRequest_UPTIME\<rparr>,
         OutlierMultiplier = 0x40000000\<rparr>
     = Inr (\<lparr>cfg_ChannelInsights = ((), ()), cfg_MinimumMonitored = 60000000000,
             cfg_Metric = UptimeMetric\<rparr>, 0x4000000000000000)"
proof -
  let ?r = "\<lparr>MinimumMonitored = 60, Metric = CloseRecommendationRequest_UPTIME\<rparr>"
  let ?req = "\<lparr>RecRequest = Some ?r, OutlierMultiplier = 0x40000000\<rparr>"
  have h: "RecRequest ?req = Some ?r"
    by simp
  have "parseRecommendationRequest RevenueMetric () () (Some ?r)
      = Inr \<lparr>cfg_ChannelInsights = ((), ()), cfg_MinimumMonitored = 60000000000,
             cfg_Metric = UptimeMetric\<rparr>"
    by (simp add: parseRecommendationRequest_def Metric_consts time_Second_def)
  with parseOutlierRequest_multiplier [OF h, of RevenueMetric "()" "()"]
  show ?thesis
    by (auto simp: widen_consts f32_less_consts)
qed

text \<open>The claim C6 fails on a request whose \<^verbatim>\<open>rec_request\<close> is unset: the multiplier 2.0
  is chosen, and then the call that parses the nil request panics; nothing is returned.\<close>

theorem parseOutlierRequest_nil_counterexample:
  "parseOutlierRequest UptimeMetric () () \<lparr>RecRequest = None, OutlierMultiplier = 0x40000000\<rparr>
     = Inl NilPointerDereference"
  by (simp add: parseOutlierRequest_def parseRecommendationRequest_def)

text \<open>
  C4, as the code has it. \<^verbatim>\<open>parseOutlierRequest\<close> validates nothing. For every outlier
  request whose \<^verbatim>\<open>rec_request\<close> is set and whose multiplier is negative, it returns the
  config together with that multiplier converted to \<^verbatim>\<open>float64\<close>, which is negative
  still.
\<close>

theorem parseOutlierRequest_negative_multiplier:
  assumes "RecRequest req = Some r" and "f32_less (OutlierMultiplier req) 0"
  shows "\<exists>c. parseOutlierRequest z ctx cfg req
              = Inr (c, float64_of_float32 (OutlierMultiplier req))
       \<and> f64_less (float64_of_float32 (OutlierMultiplier req)) 0"
proof -
  from parseRecommendationRequest_fields [of z ctx cfg r]
  obtain c where c: "parseRecommendationRequest z ctx cfg (Some r) = Inr c"
    by blast
  from assms(2) have "f32_neq (OutlierMultiplier req) 0"
    by (auto simp: f32_less_def f32_neq_def)
  with c assms(1) have "parseOutlierRequest z ctx cfg req
      = Inr (c, float64_of_float32 (OutlierMultiplier req))"
    by (simp add: parseOutlierRequest_def)
  moreover have "f64_less (float64_of_float32 (OutlierMultiplier req)) 0"
    using less_float64_of_float32 [of "OutlierMultiplier req" 0] assms(2)
    by (simp add: widen_consts)
  ultimately show ?thesis
    by blast
qed

theorem parseOutlierRequest_negative_multiplier_witness:
  "f32_less (0xBF800000 :: float32) 0
   \<and> (\<exists>c. parseOutlierRequest RevenueMetric () ()
          \<lparr>RecRequest = Some \<lparr>MinimumMonitored = 60,
                                Metric = CloseRecommendationRequest_REVENUE\<rparr>,
           OutlierMultiplier = 0xBF800000\<rparr>
        = Inr (c, 0xBFF0000000000000))
   \<and> f64_less (0xBFF0000000000000 :: float64) 0"
proof -
  let ?r = "\<lparr>MinimumMonitored = 60, Metric = CloseRecommendationRequest_REVENUE\<rparr>"
  let ?req = "\<lparr>RecRequest = Some ?r, OutlierMultiplier = 0xBF800000\<rparr>"
  have h1: "RecRequest ?req = Some ?r"
    by simp
  have h2: "f32_less (OutlierMultiplier ?req) 0"
    by (simp add: f32_less_consts)
  from parseOutlierRequest_negative_multiplier [OF h1 h2, of RevenueMetric "()" "()"]
  show ?thesis
    by (simp add: widen_consts f32_less_consts)
qed

text \<open>The claim C4 fails on the multiplier -1.0: the request is accepted, and -1.0 is
  returned next to the config.\<close>

theorem parseOutlierRequest_negative_counterexample:
  "f32_less (0xBF800000 :: float32) 0
   \<and> parseOutlierRequest UptimeMetric () ()
        \<lparr>RecRequest = Some \<lparr>MinimumMonitored = 0,
                              Metric = CloseRecommendationRequest_UPTIME\<rparr>,
         OutlierMultiplier = 0xBF800000\<rparr>
     = Inr (\<lparr>cfg_ChannelInsights = ((), ()), cfg_MinimumMonitored = 0,
             cfg_Metric = UptimeMetric\<rparr>, 0xBFF0000000000000)
   \<and> f64_less (0xBFF0000000000000 :: float64) 0"
  by (simp add: parseOutlierRequest_def parseRecommendationRequest_def Metric_consts
      time_Second_def widen_consts f32_less_consts f64_less_consts)

section \<open>Properties of the response\<close>

subsection \<open>The assembly loop\<close>

lemma st_report_append [simp]: "st_report (append_recommendation k st) = st_report st"
  by (simp add: append_recommendation_def split: option.splits)

lemma st_report_fold [simp]: "st_report (fold append_recommendation ks st) = st_report st"
  by (induction ks arbitrary: st) simp_all

lemma counts_append [simp]:
  "TotalChannels (st_resp (append_recommendation k st)) = TotalChannels (st_resp st)"
  "ConsideredChannels (st_resp (append_recommendation k st)) = ConsideredChannels (st_resp st)"
  by (simp_all add: append_recommendation_def split: option.splits)

lemma counts_fold [simp]:
  "TotalChannels (st_resp (fold append_recommendation ks st)) = TotalChannels (st_resp st)"
  "ConsideredChannels (st_resp (fold append_recommendation ks st)) = ConsideredChannels (st_resp st)"
  by (induction ks arbitrary: st) simp_all

lemma recs_fold:
  "set ks \<subseteq> dom (rep_Recommendations (st_report st)) \<Longrightarrow>
   Recommendations (st_resp (fold append_recommendation ks st))
     = Recommendations (st_resp st)
       @ map (\<lambda>k. mk_rec k (the (rep_Recommendations (st_report st) k))) ks"
proof (induction ks arbitrary: st)
  case Nil
  then show ?case by simp
next
  case (Cons k ks)
  from Cons.prems obtain r where r: "rep_Recommendations (st_report st) k = Some r"
    by auto
  have "set ks \<subseteq> dom (rep_Recommendations (st_report (append_recommendation k st)))"
    using Cons.prems by simp
  from Cons.IH [OF this] show ?case
    using r by (simp add: append_recommendation_def mk_rec_def)
qed

lemma assembled_eq:
  "range_order (rep_Recommendations report) ks \<Longrightarrow>
   assembled ks report = map (\<lambda>k. mk_rec k (the (rep_Recommendations report k))) ks"
  using recs_fold [of ks "new_response report"]
  by (simp add: assembled_def range_order_def new_response_def)

lemma rpcResponse_eq:
  "rpcResponse ks report =
     \<lparr>TotalChannels = ucast (rep_TotalChannels report),
      ConsideredChannels = ucast (rep_ConsideredChannels report),
      Recommendations = SliceStable value_less (assembled ks report)\<rparr>"
  by (simp add: rpcResponse_def rpcResponse_run_def sort_recommendations_def assembled_def
        new_response_def)

lemma mset_insert_back: "mset (insert_back lt x ys) = add_mset x (mset ys)"
  by (induction ys) simp_all

lemma set_insert_back: "set (insert_back lt x ys) = insert x (set ys)"
  by (induction ys) auto

lemma mset_foldl_insert_back:
  "mset (foldl (\<lambda>pre x. insert_back lt x pre) pre xs) = mset pre + mset xs"
  by (induction xs arbitrary: pre) (simp_all add: mset_insert_back)

lemma mset_SliceStable: "mset (SliceStable lt xs) = mset xs"
  by (simp add: SliceStable_def mset_foldl_insert_back)

lemma sorted_insert_back:
  fixes key :: "'a \<Rightarrow> 'k :: linorder"
  assumes "\<forall>y \<in> set ys. lt x y = (key x < key y)"
    and "sorted (rev (map key ys))"
  shows "sorted (rev (map key (insert_back lt x ys)))"
  using assms
proof (induction ys)
  case Nil
  then show ?case by simp
next
  case (Cons y ys)
  then show ?case
    by (auto simp: sorted_append set_insert_back)
qed

lemma filter_insert_back:
  fixes key :: "'a \<Rightarrow> 'k :: linorder"
  assumes "\<forall>y \<in> set ys. lt x y = (key x < key y)"
  shows "filter (\<lambda>y. key y = k) (insert_back lt x ys)
     = (if key x = k then x # filter (\<lambda>y. key y = k) ys else filter (\<lambda>y. key y = k) ys)"
  using assms by (induction ys) auto

lemma sorted_foldl_insert_back:
  fixes key :: "'a \<Rightarrow> 'k :: linorder"
  assumes "\<forall>a \<in> set pre \<union> set xs. \<forall>b \<in> set pre \<union> set xs. lt a b = (key a < key b)"
    and "sorted (rev (map key pre))"
  shows "sorted (rev (map key (foldl (\<lambda>pre x. insert_back lt x pre) pre xs)))"
  using assms
proof (induction xs arbitrary: pre)
  case Nil
  then show ?case by simp
next
  case (Cons x xs)
  have "sorted (rev (map key (insert_back lt x pre)))"
    using Cons.prems by (intro sorted_insert_back) auto
  moreover have "\<forall>a \<in> set (insert_back lt x pre) \<union> set xs.
       \<forall>b \<in> set (insert_back lt x pre) \<union> set xs. lt a b = (key a < key b)"
    using Cons.prems(1) by (auto simp: set_insert_back)
  ultimately show ?case
    using Cons.IH [of "insert_back lt x pre"] by simp
qed

lemma filter_foldl_insert_back:
  fixes key :: "'a \<Rightarrow> 'k :: linorder"
  assumes "\<forall>a \<in> set pre \<union> set xs. \<forall>b \<in> set pre \<union> set xs. lt a b = (key a < key b)"
  shows "filter (\<lambda>y. key y = k) (rev (foldl (\<lambda>pre x. insert_back lt x pre) pre xs))
     = filter (\<lambda>y. key y = k) (rev pre @ xs)"
  using assms
proof (induction xs arbitrary: pre)
  case Nil
  then show ?case by simp
next
  case (Cons x xs)
  have f: "filter (\<lambda>y. key y = k) (insert_back lt x pre)
     = (if key x = k then x # filter (\<lambda>y. key y = k) pre else filter (\<lambda>y. key y = k) pre)"
    using Cons.prems by (intro filter_insert_back) auto
  have "\<forall>a \<in> set (insert_back lt x pre) \<union> set xs.
       \<forall>b \<in> set (insert_back lt x pre) \<union> set xs. lt a b = (key a < key b)"
    using Cons.prems(1) by (auto simp: set_insert_back)
  from Cons.IH [OF this] show ?case
    using f by (simp add: rev_filter [symmetric])
qed

lemma sorted_SliceStable:
  fixes key :: "'a \<Rightarrow> 'k :: linorder"
  assumes "\<forall>a \<in> set xs. \<forall>b \<in> set xs. lt a b = (key a < key b)"
  shows "sorted (map key (SliceStable lt xs))"
  using sorted_foldl_insert_back [of "[]" xs lt key] assms
  by (simp add: SliceStable_def rev_map)

lemma stable_SliceStable:
  fixes key :: "'a \<Rightarrow> 'k :: linorder"
  assumes "\<forall>a \<in> set xs. \<forall>b \<in> set xs. lt a b = (key a < key b)"
  shows "filter (\<lambda>y. key y = k) (SliceStable lt xs) = filter (\<lambda>y. key y = k) xs"
  using filter_foldl_insert_back [of "[]" xs lt key k] assms
  by (simp add: SliceStable_def)

lemma set_assembled:
  assumes "range_order (rep_Recommendations report) ks"
  shows "set (assembled ks report)
     = (\<lambda>k. mk_rec k (the (rep_Recommendations report k))) ` dom (rep_Recommendations report)"
  using assms by (simp add: assembled_eq range_order_def)


lemma assembled_not_NaN:
  assumes "range_order (rep_Recommendations report) ks" "no_NaN_values report"
    "r \<in> set (assembled ks report)"
  shows "\<not> f32_isNaN (Value r)"
proof -
  from assms(1,3) obtain k where k: "k \<in> dom (rep_Recommendations report)"
      "r = mk_rec k (the (rep_Recommendations report k))"
    by (auto simp: set_assembled)
  then have "the (rep_Recommendations report k) \<in> ran (rep_Recommendations report)"
    by (auto simp: ran_def)
  with assms(2) have "\<not> f64_isNaN (rec_Value (the (rep_Recommendations report k)))"
    by (simp add: no_NaN_values_def)
  with k(2) show ?thesis
    by (simp add: mk_rec_def isNaN_float32_of_float64)
qed

lemma value_less_key:
  assumes "range_order (rep_Recommendations report) ks" "no_NaN_values report"
  shows "\<forall>a \<in> set (assembled ks report). \<forall>b \<in> set (assembled ks report).
           value_less a b = (value_key a < value_key b)"
  using assembled_not_NaN [OF assms] by (simp add: value_less_def f32_less_def value_key_def)

lemma mset_assembled:
  assumes "range_order (rep_Recommendations report) ks1"
    and "range_order (rep_Recommendations report) ks2"
  shows "mset (assembled ks1 report) = mset (assembled ks2 report)"
proof -
  have "mset ks1 = mset ks2"
    using assms by (simp add: range_order_def set_eq_iff_mset_eq_distinct [symmetric])
  then show ?thesis
    using assms by (simp add: assembled_eq)
qed




subsection \<open>Runs on the example reports\<close>

lemmas run_defs = rpcResponse_def rpcResponse_run_def sort_recommendations_def new_response_def
  append_recommendation_def SliceStable_def value_less_def

lemma run_small:
  "rpcResponse [''a:0'', ''b:1''] small_report =
   \<lparr>TotalChannels = 3, ConsideredChannels = 2,
    Recommendations = [\<lparr>ChanPoint = ''b:1'', Value = 0, RecommendClose = True\<rparr>,
                       \<lparr>ChanPoint = ''a:0'', Value = 0x3F800000, RecommendClose = False\<rparr>]\<rparr>"
  by (simp add: small_report_def run_defs narrow_consts f32_less_consts)

lemma run_equal:
  "rpcResponse [''a:0'', ''b:1''] equal_report =
   \<lparr>TotalChannels = 2, ConsideredChannels = 2,
    Recommendations = [\<lparr>ChanPoint = ''a:0'', Value = 0x3F800000, RecommendClose = False\<rparr>,
                       \<lparr>ChanPoint = ''b:1'', Value = 0x3F800000, RecommendClose = False\<rparr>]\<rparr>"
  "rpcResponse [''b:1'', ''a:0''] equal_report =
   \<lparr>TotalChannels = 2, ConsideredChannels = 2,
    Recommendations = [\<lparr>ChanPoint = ''b:1'', Value = 0x3F800000, RecommendClose = False\<rparr>,
                       \<lparr>ChanPoint = ''a:0'', Value = 0x3F800000, RecommendClose = False\<rparr>]\<rparr>"
  by (simp_all add: equal_report_def run_defs narrow_consts f32_less_consts)


lemma run_nan:
  "rpcResponse [''a:0'', ''b:1'', ''c:2''] nan_report =
   \<lparr>TotalChannels = 3, ConsideredChannels = 3,
    Recommendations = [\<lparr>ChanPoint = ''a:0'', Value = 0x3F800000, RecommendClose = False\<rparr>,
                       \<lparr>ChanPoint = ''b:1'', Value = 0x7FC00000, RecommendClose = False\<rparr>,
                       \<lparr>ChanPoint = ''c:2'', Value = 0, RecommendClose = False\<rparr>]\<rparr>"
  by (simp add: nan_report_def run_defs narrow_consts f32_less_consts)


lemma range_small: "range_order (rep_Recommendations small_report) [''a:0'', ''b:1'']"
  "range_order (rep_Recommendations small_report) [''b:1'', ''a:0'']"
  by (auto simp: small_report_def range_order_def)

lemma small_no_NaN: "no_NaN_values small_report"
  by (auto simp: small_report_def no_NaN_values_def ran_def f64_isNaN_def f64_consts
      split: if_splits)

lemma small_distinct: "distinct_values small_report"
  by (simp add: small_report_def distinct_values_def narrow_consts f32_ord_def f32_mag_def
      f32_consts)

section \<open>The claims about the response\<close>

text \<open>
  C1, as the code has it. For every report none of whose metric values is a NaN, and every
  order in which the range loop may visit the map, the recommendations of the response are
  in ascending order of their value (no entry is less than an earlier one), and the sort
  is stable: the entries of any one value appear in the order in which the assembly loop
  produced them. The response lists exactly the assembled entries.
\<close>

theorem rpcResponse_sorted_stable:
  assumes "range_order (rep_Recommendations report) ks" and "no_NaN_values report"
  shows "sorted (map value_key (Recommendations (rpcResponse ks report)))
    \<and> sorted_wrt (\<lambda>a b. \<not> value_less b a) (Recommendations (rpcResponse ks report))
    \<and> (\<forall>v. filter (\<lambda>r. value_key r = v) (Recommendations (rpcResponse ks report))
            = filter (\<lambda>r. value_key r = v) (assembled ks report))
    \<and> mset (Recommendations (rpcResponse ks report)) = mset (assembled ks report)"
proof -
  let ?out = "Recommendations (rpcResponse ks report)"
  have out: "?out = SliceStable value_less (assembled ks report)"
    by (simp add: rpcResponse_eq)
  note k = value_less_key [OF assms]
  have s: "sorted (map value_key ?out)"
    unfolding out using k by (rule sorted_SliceStable)
  have m: "mset ?out = mset (assembled ks report)"
    unfolding out by (rule mset_SliceStable)
  then have "set ?out = set (assembled ks report)"
    by (rule mset_eq_setD)
  with k have e: "\<And>a b. a \<in> set ?out \<Longrightarrow> b \<in> set ?out \<Longrightarrow>
      value_key a \<le> value_key b \<Longrightarrow> \<not> value_less b a"
    by auto
  from s have "sorted_wrt (\<lambda>a b. value_key a \<le> value_key b) ?out"
    by (simp add: sorted_map)
  then have w: "sorted_wrt (\<lambda>a b. \<not> value_less b a) ?out"
    by (rule sorted_wrt_mono_rel [rotated]) (rule e)
  have "\<forall>v. filter (\<lambda>r. value_key r = v) ?out = filter (\<lambda>r. value_key r = v) (assembled ks report)"
    unfolding out using stable_SliceStable [OF k] by simp
  with s w m show ?thesis by simp
qed

theorem rpcResponse_sorted_stable_witness:
  "range_order (rep_Recommendations small_report) [''a:0'', ''b:1'']
   \<and> no_NaN_values small_report
   \<and> sorted (map value_key (Recommendations (rpcResponse [''a:0'', ''b:1''] small_report)))
   \<and> Recommendations (rpcResponse [''a:0'', ''b:1''] small_report)
       = [\<lparr>ChanPoint = ''b:1'', Value = 0, RecommendClose = True\<rparr>,
          \<lparr>ChanPoint = ''a:0'', Value = 0x3F800000, RecommendClose = False\<rparr>]"
  using rpcResponse_sorted_stable [OF range_small(1) small_no_NaN]
  by (simp add: range_small small_no_NaN run_small)

text \<open>The claim C1 fails on a report with a NaN: visiting 1.0, NaN, 0.0 in this order
  leaves them in this order, since neither neighbour of the NaN is less than it, and 0.0
  ends up behind 1.0.\<close>

theorem rpcResponse_sorted_counterexample:
  "range_order (rep_Recommendations nan_report) [''a:0'', ''b:1'', ''c:2'']
   \<and> Recommendations (rpcResponse [''a:0'', ''b:1'', ''c:2''] nan_report)
       = [\<lparr>ChanPoint = ''a:0'', Value = 0x3F800000, RecommendClose = False\<rparr>,
          \<lparr>ChanPoint = ''b:1'', Value = 0x7FC00000, RecommendClose = False\<rparr>,
          \<lparr>ChanPoint = ''c:2'', Value = 0, RecommendClose = False\<rparr>]
   \<and> f32_less 0 0x3F800000
   \<and> \<not> sorted_wrt (\<lambda>a b. \<not> value_less b a)
          (Recommendations (rpcResponse [''a:0'', ''b:1'', ''c:2''] nan_report))"
proof -
  have "range_order (rep_Recommendations nan_report) [''a:0'', ''b:1'', ''c:2'']"
    by (auto simp: nan_report_def range_order_def)
  then show ?thesis
    by (simp add: run_nan value_less_def f32_less_consts)
qed

text \<open>
  C2, as the code has it. Two runs of \<^verbatim>\<open>rpcResponse\<close> on one report, whatever the orders
  in which they visit the map, return the same two counts and the same recommendations up
  to their order. The two responses are equal element for element when no metric value
  is a NaN and no two values are equal after the conversion to \<^verbatim>\<open>float32\<close>; the order
  of entries of equal value is the order of the visit.
\<close>

theorem rpcResponse_runs_agree:
  assumes "range_order (rep_Recommendations report) ks1"
    and "range_order (rep_Recommendations report) ks2"
  shows "TotalChannels (rpcResponse ks1 report) = TotalChannels (rpcResponse ks2 report)
    \<and> ConsideredChannels (rpcResponse ks1 report) = ConsideredChannels (rpcResponse ks2 report)
    \<and> mset (Recommendations (rpcResponse ks1 report))
          = mset (Recommendations (rpcResponse ks2 report))
    \<and> (no_NaN_values report \<and> distinct_values report
          \<longrightarrow> rpcResponse ks1 report = rpcResponse ks2 report)"
proof -
  let ?m = "rep_Recommendations report"
  let ?g = "\<lambda>k. mk_rec k (the (?m k))"
  let ?o1 = "Recommendations (rpcResponse ks1 report)"
  let ?o2 = "Recommendations (rpcResponse ks2 report)"
  have o: "?o1 = SliceStable value_less (assembled ks1 report)"
      "?o2 = SliceStable value_less (assembled ks2 report)"
    by (simp_all add: rpcResponse_eq)
  have m: "mset ?o1 = mset ?o2"
    unfolding o using mset_assembled [OF assms] by (simp add: mset_SliceStable)
  have eq: "rpcResponse ks1 report = rpcResponse ks2 report"
    if nn: "no_NaN_values report" and dv: "distinct_values report"
  proof -
    have s1: "sorted (map value_key ?o1)"
      unfolding o using value_less_key [OF assms(1) nn] by (rule sorted_SliceStable)
    have s2: "sorted (map value_key ?o2)"
      unfolding o using value_less_key [OF assms(2) nn] by (rule sorted_SliceStable)
    have inj: "inj_on (value_key \<circ> ?g) (dom ?m)"
      using dv by (simp add: distinct_values_def value_key_def mk_rec_def comp_def)
    have "distinct (map value_key (assembled ks1 report))"
      using assms(1) inj
      by (simp add: assembled_eq distinct_map range_order_def comp_def)
    moreover have "mset (map value_key ?o1) = mset (map value_key (assembled ks1 report))"
      unfolding o by (simp add: mset_SliceStable)
    ultimately have d1: "distinct (map value_key ?o1)"
      by (metis mset_eq_imp_distinct_iff)
    have mk: "mset (map value_key ?o1) = mset (map value_key ?o2)"
      using m by simp
    then have d2: "distinct (map value_key ?o2)"
      using d1 by (metis mset_eq_imp_distinct_iff)
    have "set (map value_key ?o1) = set (map value_key ?o2)"
      using mk by (rule mset_eq_setD)
    with s1 d1 s2 d2 have keys: "map value_key ?o1 = map value_key ?o2"
      by (intro sorted_distinct_set_unique)
    have "set ?o1 = ?g ` dom ?m" "set ?o2 = ?g ` dom ?m"
      using mset_eq_setD [of ?o1 "assembled ks1 report"] mset_eq_setD [of ?o2 "assembled ks2 report"]
        set_assembled [OF assms(1)] set_assembled [OF assms(2)]
      unfolding o by (simp_all add: mset_SliceStable)
    moreover have "inj_on value_key (?g ` dom ?m)"
      using inj by (rule inj_on_imageI)
    ultimately have "inj_on value_key (set ?o1 \<union> set ?o2)"
      by simp
    with keys have "?o1 = ?o2"
      by (simp add: inj_on_map_eq_map)
    then show ?thesis
      by (simp add: rpcResponse_eq)
  qed
  show ?thesis
    using m eq by (simp add: rpcResponse_eq)
qed

theorem rpcResponse_runs_agree_witness:
  "range_order (rep_Recommendations small_report) [''a:0'', ''b:1'']
   \<and> range_order (rep_Recommendations small_report) [''b:1'', ''a:0'']
   \<and> no_NaN_values small_report \<and> distinct_values small_report
   \<and> rpcResponse [''a:0'', ''b:1''] small_report = rpcResponse [''b:1'', ''a:0''] small_report"
  using rpcResponse_runs_agree [OF range_small(1) range_small(2)]
  by (simp add: range_small small_no_NaN small_distinct)

text \<open>The claim C2 fails on a report with two channels of equal value: the run that
  visits \<^verbatim>\<open>a:0\<close> first and the run that visits \<^verbatim>\<open>b:1\<close> first return different
  lists.\<close>

theorem rpcResponse_deterministic_counterexample:
  "range_order (rep_Recommendations equal_report) [''a:0'', ''b:1'']
   \<and> range_order (rep_Recommendations equal_report) [''b:1'', ''a:0'']
   \<and> rpcResponse [''a:0'', ''b:1''] equal_report \<noteq> rpcResponse [''b:1'', ''a:0''] equal_report"
proof -
  have "range_order (rep_Recommendations equal_report) [''a:0'', ''b:1'']"
    "range_order (rep_Recommendations equal_report) [''b:1'', ''a:0'']"
    by (auto simp: equal_report_def range_order_def)
  then show ?thesis
    by (simp add: run_equal)
qed






text \<open>
  C10. \<^verbatim>\<open>rpcResponse\<close> leaves its input as it was: in the final state of every run the
  report, with its two counts and its whole map of recommendations, is the report the run
  was given. The statements of the function write to the response only: allocating the
  response, appending an entry to it and sorting it each leave the report as it is.
\<close>

theorem rpcResponse_frame:
  "st_report (rpcResponse_run ks report) = report
   \<and> st_resp (rpcResponse_run ks report) = rpcResponse ks report
   \<and> st_report (new_response report) = report
   \<and> st_report (append_recommendation chanPoint st) = st_report st
   \<and> st_report (sort_recommendations st) = st_report st"
  by (simp add: rpcResponse_def rpcResponse_run_def sort_recommendations_def new_response_def)

end
